theory Spec2Isabelle
  imports Complex_Main "HOL-Library.Log_Nat"
begin

unbundle bit_operations_syntax

section \<open>Exceptions\<close>

text \<open>
  The Python services signal failure by raising. Every value of \<open>error\<close> stands for an
  instance of a subclass of Python's \<open>Exception\<close> (the class that the handlers
  \<open>except Exception\<close> of the services catch); the strings are the messages.
\<close>

datatype error =
    NameError string
  | KeyError string
  | ValueError
  | OSError
  | ImportError
  | SqliteError
  | RuntimeError string
  | TimeoutError
  | RequestException
  | OversizeError
  | RateLimitError
  | HTTPException nat
  | OtherException string
  | OverflowError
  | ZeroDivisionError
  | TypeError
  | AttributeError

section \<open>Curation engine (media_ingest/curation.py)\<close>

text \<open>
  The fields of \<open>MediaIngestConfig\<close> that the curation engine and the pipeline read.
  Python floats are modelled as real numbers: the code only compares them.
\<close>

record config =
  aesthetic_threshold :: real
  sharpness_threshold :: real
  duplicate_hamming_threshold :: int
  face_blur_enabled :: bool
  concurrency :: int
  enhancement_backend :: string
  enhancement_scale :: int
  watermark_path :: "string option"

text \<open>The defaults that config.py declares for these fields.\<close>

definition default_config :: config where
  "default_config =
     \<lparr>aesthetic_threshold = 1 / 2, sharpness_threshold = 100,
      duplicate_hamming_threshold = 5, face_blur_enabled = True, concurrency = 4,
      enhancement_backend = ''realesrgan'', enhancement_scale = 2, watermark_path = None\<rparr>"

subsection \<open>should_keep_image\<close>

text \<open>
  \<open>score_image\<close> returns a dictionary with the four keys of a score set. A dictionary
  is a map; \<open>scores.get(k, 0)\<close> is \<open>dict_get\<close> and \<open>scores[k]\<close>, which raises
  \<open>KeyError\<close> on a missing key, is \<open>dict_item\<close>.
\<close>

type_synonym scores = "string \<rightharpoonup> real"

record score_set =
  aesthetic :: real
  sharpness :: real
  exposure :: real
  blur :: real

definition score_dict :: "score_set \<Rightarrow> scores" where
  "score_dict s =
     [''aesthetic'' \<mapsto> aesthetic s, ''sharpness'' \<mapsto> sharpness s,
      ''exposure'' \<mapsto> exposure s, ''blur'' \<mapsto> blur s]"

definition dict_get :: "scores \<Rightarrow> string \<Rightarrow> real \<Rightarrow> real" where
  "dict_get d k dflt = (case d k of None \<Rightarrow> dflt | Some v \<Rightarrow> v)"

definition dict_item :: "scores \<Rightarrow> string \<Rightarrow> error + real" where
  "dict_item d k = (case d k of None \<Rightarrow> Inl (KeyError k) | Some v \<Rightarrow> Inr v)"

text \<open>
  A rejection reason is an f-string built from the score and the threshold; the model keeps
  the two numbers the string is formatted from.
\<close>

datatype reason =
    AestheticBelow real real
  | SharpnessBelow real real
  | PoorExposure real

text \<open>One \<open>if ...: reasons.append(...)\<close> statement of \<open>should_keep_image\<close> each.\<close>

definition check_aesthetic :: "config \<Rightarrow> scores \<Rightarrow> reason list \<Rightarrow> error + reason list" where
  "check_aesthetic cfg sc reasons =
     (if dict_get sc ''aesthetic'' 0 < aesthetic_threshold cfg
      then (case dict_item sc ''aesthetic'' of
              Inl e \<Rightarrow> Inl e
            | Inr v \<Rightarrow> Inr (reasons @ [AestheticBelow v (aesthetic_threshold cfg)]))
      else Inr reasons)"

definition check_sharpness :: "config \<Rightarrow> scores \<Rightarrow> reason list \<Rightarrow> error + reason list" where
  "check_sharpness cfg sc reasons =
     (if dict_get sc ''sharpness'' 0 < sharpness_threshold cfg
      then (case dict_item sc ''sharpness'' of
              Inl e \<Rightarrow> Inl e
            | Inr v \<Rightarrow> Inr (reasons @ [SharpnessBelow v (sharpness_threshold cfg)]))
      else Inr reasons)"

definition check_exposure :: "scores \<Rightarrow> reason list \<Rightarrow> error + reason list" where
  "check_exposure sc reasons =
     (if dict_get sc ''exposure'' 0 < 3 / 10
      then (case dict_item sc ''exposure'' of
              Inl e \<Rightarrow> Inl e
            | Inr v \<Rightarrow> Inr (reasons @ [PoorExposure v]))
      else Inr reasons)"

definition should_keep_image :: "config \<Rightarrow> scores \<Rightarrow> error + (bool \<times> reason list)" where
  "should_keep_image cfg sc =
     (case check_aesthetic cfg sc [] of
        Inl e \<Rightarrow> Inl e
      | Inr r1 \<Rightarrow>
          (case check_sharpness cfg sc r1 of
             Inl e \<Rightarrow> Inl e
           | Inr r2 \<Rightarrow>
               (case check_exposure sc r2 of
                  Inl e \<Rightarrow> Inl e
                | Inr reasons \<Rightarrow> Inr (length reasons = 0, reasons))))"

subsection \<open>is_duplicate and check_duplicate\<close>

text \<open>
  A perceptual hash is the string \<open>str(dhash(image))\<close>: hexadecimal digits. \<open>int16\<close> is
  \<open>int(hash, 16)\<close> on such strings; a string that is empty or holds another character
  raises \<open>ValueError\<close>. (Python's \<open>int\<close> also reads a sign, a \<open>0x\<close> prefix, underscores
  and surrounding blanks, which no hash string holds; the model rejects them.)
\<close>

definition hex_digit :: "char \<Rightarrow> nat option" where
  "hex_digit c =
     (let n = of_char c :: nat in
      if 48 \<le> n \<and> n \<le> 57 then Some (n - 48)
      else if 97 \<le> n \<and> n \<le> 102 then Some (n - 87)
      else if 65 \<le> n \<and> n \<le> 70 then Some (n - 55)
      else None)"

fun hex_value :: "nat \<Rightarrow> string \<Rightarrow> nat option" where
  "hex_value acc [] = Some acc"
| "hex_value acc (c # cs) =
     (case hex_digit c of None \<Rightarrow> None | Some d \<Rightarrow> hex_value (16 * acc + d) cs)"

definition int16 :: "string \<Rightarrow> error + nat" where
  "int16 s =
     (if s = [] then Inl ValueError
      else (case hex_value 0 s of None \<Rightarrow> Inl ValueError | Some n \<Rightarrow> Inr n))"

text \<open>\<open>bin(n)\<close> for a natural number, and \<open>str.count\<close> of one character.\<close>

fun bin_digits :: "nat \<Rightarrow> string" where
  "bin_digits n =
     (if n < 2 then [if n = 0 then CHR ''0'' else CHR ''1'']
      else bin_digits (n div 2) @ [if n mod 2 = 0 then CHR ''0'' else CHR ''1''])"

declare bin_digits.simps [simp del]

definition bin :: "nat \<Rightarrow> string" where
  "bin n = ''0b'' @ bin_digits n"

definition count_char :: "string \<Rightarrow> char \<Rightarrow> nat" where
  "count_char s c = length (filter (\<lambda>x. x = c) s)"

definition is_duplicate :: "config \<Rightarrow> string \<Rightarrow> string \<Rightarrow> int option \<Rightarrow> error + bool" where
  "is_duplicate cfg hash1 hash2 threshold =
     (let t = (case threshold of None \<Rightarrow> duplicate_hamming_threshold cfg | Some v \<Rightarrow> v) in
      case int16 hash1 of
        Inl e \<Rightarrow> Inl e
      | Inr h1 \<Rightarrow>
          (case int16 hash2 of
             Inl e \<Rightarrow> Inl e
           | Inr h2 \<Rightarrow>
               (let distance = count_char (bin (h1 XOR h2)) CHR ''1''
                in Inr (int distance \<le> t))))"

text \<open>
  \<open>seen_hashes\<close> is a Python set. The model keeps its elements in a list without
  repetition, in the order the \<open>for\<close> loop visits them; \<open>set_add\<close> is \<open>set.add\<close>.
\<close>

definition set_add :: "string \<Rightarrow> string list \<Rightarrow> string list" where
  "set_add h seen = (if h \<in> set seen then seen else seen @ [h])"

text \<open>The \<open>for\<close> loop of \<open>check_duplicate\<close>: \<open>Inr True\<close> is its early \<open>return True\<close>.\<close>

fun scan_seen :: "config \<Rightarrow> string \<Rightarrow> string list \<Rightarrow> error + bool" where
  "scan_seen cfg image_hash [] = Inr False"
| "scan_seen cfg image_hash (seen_hash # rest) =
     (case is_duplicate cfg image_hash seen_hash None of
        Inl e \<Rightarrow> Inl e
      | Inr True \<Rightarrow> Inr True
      | Inr False \<Rightarrow> scan_seen cfg image_hash rest)"

definition check_duplicate :: "config \<Rightarrow> string \<Rightarrow> string list \<Rightarrow> (error + bool) \<times> string list" where
  "check_duplicate cfg image_hash seen =
     (case scan_seen cfg image_hash seen of
        Inl e \<Rightarrow> (Inl e, seen)
      | Inr True \<Rightarrow> (Inr True, seen)
      | Inr False \<Rightarrow> (Inr False, set_add image_hash seen))"

section \<open>Ingest pipeline (media_ingest/pipeline.py)\<close>

subsection \<open>ProcessedDatabase\<close>

text \<open>
  The table \<open>processed\<close> has the primary key \<open>sha256\<close>: it is a map from the hash to the
  other columns. \<open>INSERT OR REPLACE\<close> overwrites the row of a key that is present.
\<close>

record media_record =
  source_path :: string
  output_path :: string
  processed_at :: nat
  source :: string

type_synonym processed_table = "string \<rightharpoonup> media_record"

definition is_processed :: "processed_table \<Rightarrow> string \<Rightarrow> bool" where
  "is_processed tbl sha256 = (tbl sha256 \<noteq> None)"

definition mark_processed ::
  "processed_table \<Rightarrow> string \<Rightarrow> string \<Rightarrow> string \<Rightarrow> nat \<Rightarrow> string \<Rightarrow> processed_table" where
  "mark_processed tbl sha256 src_path out_path stamp src =
     tbl(sha256 \<mapsto> \<lparr>source_path = src_path, output_path = out_path,
                      processed_at = stamp, source = src\<rparr>)"

subsection \<open>State and collaborators\<close>

type_synonym image = "nat list"

record metadata =
  md_source :: string
  md_original_path :: string
  md_output_path :: string
  md_processed_at :: nat
  md_scores :: "(string \<times> real) list"
  md_kept :: bool
  md_reasons :: "reason list"
  md_enhancement_backend :: string
  md_enhancement_scale :: int
  md_faces_blurred :: bool
  md_watermark :: "string option"
  md_brand :: string

datatype file_content = ImageFile image | SidecarFile metadata

datatype log_line =
    Processing string string
  | SkippingProcessed string
  | SkippingDuplicate string
  | Rejecting string "reason list"
  | Processed string string
  | ErrorProcessing string error
  | BatchError error

text \<open>
  What one pipeline owns and changes: the processed table, the hashes the curation engine
  has seen, the files under the output directory, and the lines printed so far.
\<close>

record pipeline_state =
  db :: processed_table
  seen_hashes :: "string list"
  files :: "string \<rightharpoonup> file_content"
  printed :: "log_line list"

text \<open>
  The calls that leave the module: the file system, the image libraries, the scorers, the
  clock and SQLite. Each is a function of its arguments that returns its result or the
  exception it raises; \<open>None\<close> in an \<open>error option\<close> is a call that does not raise.
  \<open>generate_output_path\<close> reads the clock and probes the output directory; it is taken
  here with the files written so far as its argument. \<open>score_image\<close> hands back the
  score set that \<open>score_dict\<close> turns into the dictionary.
\<close>

record collaborators =
  sha256_hex :: "string \<Rightarrow> string"
  read_file :: "string \<Rightarrow> error + string"
  image_open :: "string \<Rightarrow> error + image"
  compute_perceptual_hash :: "string \<Rightarrow> error + string"
  score_image :: "string \<Rightarrow> error + score_set"
  enhancer_process_image :: "image \<Rightarrow> error + image"
  apply_watermark :: "image \<Rightarrow> error + image"
  face_blurrer_process_image :: "image \<Rightarrow> error + image"
  generate_output_path :: "(string \<rightharpoonup> file_content) \<Rightarrow> string \<Rightarrow> error + string"
  image_save :: "image \<Rightarrow> string \<Rightarrow> error option"
  sidecar_write :: "string \<Rightarrow> error option"
  select_fault :: "error option"
  insert_fault :: "error option"
  clock :: nat

definition compute_sha256 :: "collaborators \<Rightarrow> string \<Rightarrow> error + string" where
  "compute_sha256 w file_path =
     (case read_file w file_path of Inl e \<Rightarrow> Inl e | Inr bytes \<Rightarrow> Inr (sha256_hex w bytes))"

text \<open>
  The names bound at module level in pipeline.py: its imports, its two classes and the
  global \<open>pipeline\<close>. Reading any other name that is not a builtin raises \<open>NameError\<close>.
\<close>

definition module_names :: "string list" where
  "module_names =
     [''hashlib'', ''json'', ''shutil'', ''sqlite3'', ''datetime'', ''Path'', ''Dict'',
      ''List'', ''Optional'', ''Tuple'', ''cv2'', ''Image'', ''config'', ''curation_engine'',
      ''enhancer'', ''face_blurrer'', ''watermark_applier'', ''ProcessedDatabase'',
      ''MediaPipeline'', ''pipeline'']"

definition global_name :: "string \<Rightarrow> error option" where
  "global_name n = (if n \<in> set module_names then None else Some (NameError n))"

text \<open>\<open>Path.with_suffix('.json')\<close>: the last component loses its suffix, if it has one.\<close>

definition path_name :: "string \<Rightarrow> string" where
  "path_name p = rev (takeWhile (\<lambda>c. c \<noteq> CHR ''/'') (rev p))"

definition path_suffix :: "string \<Rightarrow> string" where
  "path_suffix p =
     (let name = path_name p; tail = rev (takeWhile (\<lambda>c. c \<noteq> CHR ''.'') (rev name)) in
      if CHR ''.'' \<in> set name \<and> length tail + 1 < length name \<and> tail \<noteq> []
      then CHR ''.'' # tail else [])"

definition with_suffix :: "string \<Rightarrow> string \<Rightarrow> string" where
  "with_suffix p sfx = take (length p - length (path_suffix p)) p @ sfx"

subsection \<open>process_file\<close>

text \<open>Steps 7 to 10 of the \<open>try\<close> block, from the face blur to the return.\<close>

definition face_blur_step :: "collaborators \<Rightarrow> config \<Rightarrow> image \<Rightarrow> error + image" where
  "face_blur_step w cfg watermarked_pil =
     (if face_blur_enabled cfg
      then (case global_name ''np'' of
              Some e \<Rightarrow> Inl e
            | None \<Rightarrow> face_blurrer_process_image w watermarked_pil)
      else Inr watermarked_pil)"

definition save_and_record ::
  "collaborators \<Rightarrow> config \<Rightarrow> string \<Rightarrow> string \<Rightarrow> string \<Rightarrow> score_set \<Rightarrow> image \<Rightarrow>
   pipeline_state \<Rightarrow> (error + string option) \<times> pipeline_state" where
  "save_and_record w cfg input_path src file_hash sc final_pil st =
     (case generate_output_path w (files st) input_path of
        Inl e \<Rightarrow> (Inl e, st)
      | Inr out \<Rightarrow>
          (case image_save w final_pil out of
             Some e \<Rightarrow> (Inl e, st)
           | None \<Rightarrow>
               (let st1 = st\<lparr>files := (files st)(out \<mapsto> ImageFile final_pil)\<rparr>;
                    md = \<lparr>md_source = src, md_original_path = input_path, md_output_path = out,
                          md_processed_at = clock w,
                          md_scores = [(''aesthetic'', aesthetic sc), (''sharpness'', sharpness sc),
                                       (''exposure'', exposure sc), (''blur'', blur sc)],
                          md_kept = True, md_reasons = [],
                          md_enhancement_backend = enhancement_backend cfg,
                          md_enhancement_scale = enhancement_scale cfg,
                          md_faces_blurred = face_blur_enabled cfg,
                          md_watermark = watermark_path cfg, md_brand = ''vitrinealu''\<rparr>
                in case sidecar_write w (with_suffix out ''.json'') of
                     Some e \<Rightarrow> (Inl e, st1)
                   | None \<Rightarrow>
                       (let st2 = st1\<lparr>files := (files st1)(with_suffix out ''.json'' \<mapsto> SidecarFile md)\<rparr>
                        in case insert_fault w of
                             Some e \<Rightarrow> (Inl e, st2)
                           | None \<Rightarrow>
                               (Inr (Some out),
                                st2\<lparr>db := mark_processed (db st2) file_hash input_path out (clock w) src,
                                    printed := printed st2 @ [Processed input_path out]\<rparr>)))))"

text \<open>Steps 5 to 7: enhancement, watermark, face blur; then the saving steps.\<close>

definition transform_and_save ::
  "collaborators \<Rightarrow> config \<Rightarrow> string \<Rightarrow> string \<Rightarrow> string \<Rightarrow> score_set \<Rightarrow> image \<Rightarrow>
   pipeline_state \<Rightarrow> (error + string option) \<times> pipeline_state" where
  "transform_and_save w cfg input_path src file_hash sc pil_image st =
     (case enhancer_process_image w pil_image of
        Inl e \<Rightarrow> (Inl e, st)
      | Inr enhanced_pil \<Rightarrow>
          (case apply_watermark w enhanced_pil of
             Inl e \<Rightarrow> (Inl e, st)
           | Inr watermarked_pil \<Rightarrow>
               (case face_blur_step w cfg watermarked_pil of
                  Inl e \<Rightarrow> (Inl e, st)
                | Inr final_pil \<Rightarrow> save_and_record w cfg input_path src file_hash sc final_pil st)))"

text \<open>Steps 3 and 4: duplicate detection and curation; then the transforms.\<close>

definition curate_and_transform ::
  "collaborators \<Rightarrow> config \<Rightarrow> string \<Rightarrow> string \<Rightarrow> string \<Rightarrow> image \<Rightarrow>
   pipeline_state \<Rightarrow> (error + string option) \<times> pipeline_state" where
  "curate_and_transform w cfg input_path src file_hash pil_image st =
     (case compute_perceptual_hash w input_path of
        Inl e \<Rightarrow> (Inl e, st)
      | Inr perceptual_hash \<Rightarrow>
          (case check_duplicate cfg perceptual_hash (seen_hashes st) of
             (Inl e, seen) \<Rightarrow> (Inl e, st\<lparr>seen_hashes := seen\<rparr>)
           | (Inr True, seen) \<Rightarrow>
               (Inr None, st\<lparr>seen_hashes := seen,
                               printed := printed st @ [SkippingDuplicate input_path]\<rparr>)
           | (Inr False, seen) \<Rightarrow>
               (let st1 = st\<lparr>seen_hashes := seen\<rparr> in
                case score_image w input_path of
                  Inl e \<Rightarrow> (Inl e, st1)
                | Inr sc \<Rightarrow>
                    (case should_keep_image cfg (score_dict sc) of
                       Inl e \<Rightarrow> (Inl e, st1)
                     | Inr (keep, reasons) \<Rightarrow>
                         if \<not> keep
                         then (Inr None, st1\<lparr>printed := printed st1 @ [Rejecting input_path reasons]\<rparr>)
                         else transform_and_save w cfg input_path src file_hash sc pil_image st1))))"

text \<open>
  The body of the \<open>try\<close> block: \<open>Inl e\<close> is the exception \<open>e\<close> leaving the block,
  \<open>Inr r\<close> the value of a \<open>return\<close>. (\<open>cv_image\<close>, read by \<open>cv2.imread\<close>, which returns
  \<open>None\<close> where it cannot read, is never used.)
\<close>

definition process_file_try ::
  "collaborators \<Rightarrow> config \<Rightarrow> string \<Rightarrow> string \<Rightarrow> pipeline_state \<Rightarrow>
   (error + string option) \<times> pipeline_state" where
  "process_file_try w cfg input_path src st0 =
     (let st = st0\<lparr>printed := printed st0 @ [Processing input_path src]\<rparr> in
      case compute_sha256 w input_path of
        Inl e \<Rightarrow> (Inl e, st)
      | Inr file_hash \<Rightarrow>
          (case select_fault w of
             Some e \<Rightarrow> (Inl e, st)
           | None \<Rightarrow>
               if is_processed (db st) file_hash
               then (Inr None, st\<lparr>printed := printed st @ [SkippingProcessed input_path]\<rparr>)
               else (case image_open w input_path of
                       Inl e \<Rightarrow> (Inl e, st)
                     | Inr pil_image \<Rightarrow>
                         curate_and_transform w cfg input_path src file_hash pil_image st)))"

text \<open>
  \<open>process_file\<close>: the \<open>try\<close> block under its handler \<open>except Exception\<close>. The result is
  \<open>Inr r\<close> when the call returns \<open>r\<close> and \<open>Inl e\<close> when \<open>e\<close> leaves the call.
\<close>

definition process_file ::
  "collaborators \<Rightarrow> config \<Rightarrow> string \<Rightarrow> string \<Rightarrow> pipeline_state \<Rightarrow>
   (error + string option) \<times> pipeline_state" where
  "process_file w cfg input_path src st =
     (case process_file_try w cfg input_path src st of
        (Inr r, st') \<Rightarrow> (Inr r, st')
      | (Inl e, st') \<Rightarrow> (Inr None, st'\<lparr>printed := printed st' @ [ErrorProcessing input_path e]\<rparr>))"

subsection \<open>process_batch\<close>

text \<open>
  The executor runs one \<open>process_file\<close> per path. The model runs them one after the other
  in the order they were submitted (one of the schedules of the pool); \<open>ThreadPoolExecutor\<close>
  raises \<open>ValueError\<close> for a pool of no workers.
\<close>

fun submit_all ::
  "collaborators \<Rightarrow> config \<Rightarrow> string list \<Rightarrow> string \<Rightarrow> pipeline_state \<Rightarrow>
   (error + string option) list \<times> pipeline_state" where
  "submit_all w cfg [] src st = ([], st)"
| "submit_all w cfg (p # ps) src st =
     (case process_file w cfg p src st of
        (r, st1) \<Rightarrow> (case submit_all w cfg ps src st1 of (rs, st2) \<Rightarrow> (r # rs, st2)))"

fun collect_results :: "(error + string option) list \<Rightarrow> string list \<times> log_line list" where
  "collect_results [] = ([], [])"
| "collect_results (Inr (Some out) # fs) =
     (case collect_results fs of (results, lines) \<Rightarrow> (out # results, lines))"
| "collect_results (Inr None # fs) = collect_results fs"
| "collect_results (Inl e # fs) =
     (case collect_results fs of (results, lines) \<Rightarrow> (results, BatchError e # lines))"

definition process_batch ::
  "collaborators \<Rightarrow> config \<Rightarrow> string list \<Rightarrow> string \<Rightarrow> int option \<Rightarrow> pipeline_state \<Rightarrow>
   (error + string list) \<times> pipeline_state" where
  "process_batch w cfg file_paths src max_workers st =
     (let workers = (case max_workers of
                       None \<Rightarrow> concurrency cfg
                     | Some n \<Rightarrow> if n = 0 then concurrency cfg else n)
      in if workers \<le> 0 then (Inl ValueError, st)
         else (case submit_all w cfg file_paths src st of
                 (futures, st1) \<Rightarrow>
                   (case collect_results futures of
                      (results, lines) \<Rightarrow> (Inr results, st1\<lparr>printed := printed st1 @ lines\<rparr>))))"

section \<open>Python floats and integer division\<close>

text \<open>
  A Python \<open>float\<close> is an IEEE 754 binary64 number. A finite one is given here by the
  real number it denotes (the sign of a zero is not kept: no operation below tells the
  two zeros apart), and \<open>nearest_double x\<close> is the double nearest to the real \<open>x\<close>, ties
  going to the even significand: \<open>expo x\<close> is the exponent \<open>e\<close> with \<open>2^e \<le> x < 2^(e+1)\<close>,
  \<open>ulp x\<close> the gap between neighbouring doubles at \<open>x\<close> (53 significant bits, subnormal
  below \<open>2^(-1022)\<close>), and \<open>x\<close> is rounded to a whole number of such gaps. A result of
  magnitude \<open>2^1024\<close> or more is an overflow.
\<close>

definition expo :: "real \<Rightarrow> int" where
  "expo x = (if 1 \<le> x then bitlen \<lfloor>x\<rfloor> - 1 else - bitlen (\<lceil>1 / x\<rceil> - 1))"

definition round_half_even :: "real \<Rightarrow> int" where
  "round_half_even x =
     (let f = \<lfloor>x\<rfloor>; d = x - of_int f in
      if d < 1 / 2 then f else if 1 / 2 < d then f + 1 else if even f then f else f + 1)"

definition ulp :: "real \<Rightarrow> real" where
  "ulp x = 2 powi (max (expo \<bar>x\<bar>) (- 1022) - 52)"

definition nearest_double :: "real \<Rightarrow> real" where
  "nearest_double x =
     (if x = 0 then 0
      else sgn x * (of_int (round_half_even (\<bar>x\<bar> / ulp x)) * ulp x))"

datatype double = Finite real | PosInf | NegInf | NaN

definition round_double :: "real \<Rightarrow> double" where
  "round_double x =
     (let r = nearest_double x in
      if 2 ^ 1024 \<le> r then PosInf else if r \<le> - (2 ^ 1024) then NegInf else Finite r)"

text \<open>
  The operations that the two token buckets use. \<open>float_sub\<close> is \<open>a - b\<close> on two clock
  readings (finite floats), \<open>float_mul\<close> is \<open>a * b\<close> for a float \<open>a\<close> and a finite float
  \<open>b\<close>; both round their exact result, and an overflow gives an infinity.
  \<open>int_true_div\<close> is \<open>a / b\<close> on two \<open>int\<close>s: the quotient correctly rounded, and
  \<open>OverflowError\<close> where it is too large for a float. \<open>py_int\<close> is \<open>int\<close> on a float: it
  drops the fraction, rounding towards zero, and raises on an infinity or a NaN.
\<close>

definition float_sub :: "real \<Rightarrow> real \<Rightarrow> double" where
  "float_sub a b = round_double (a - b)"

definition int_true_div :: "int \<Rightarrow> int \<Rightarrow> error + real" where
  "int_true_div a b =
     (if b = 0 then Inl ZeroDivisionError
      else (let r = nearest_double (of_int a / of_int b) in
            if 2 ^ 1024 \<le> \<bar>r\<bar> then Inl OverflowError else Inr r))"

definition float_mul :: "double \<Rightarrow> real \<Rightarrow> double" where
  "float_mul a b =
     (case a of
        Finite x \<Rightarrow> round_double (x * b)
      | PosInf \<Rightarrow> if 0 < b then PosInf else if b < 0 then NegInf else NaN
      | NegInf \<Rightarrow> if 0 < b then NegInf else if b < 0 then PosInf else NaN
      | NaN \<Rightarrow> NaN)"

definition py_int :: "double \<Rightarrow> error + int" where
  "py_int d =
     (case d of
        Finite x \<Rightarrow> Inr (if 0 \<le> x then \<lfloor>x\<rfloor> else \<lceil>x\<rceil>)
      | PosInf \<Rightarrow> Inl OverflowError
      | NegInf \<Rightarrow> Inl OverflowError
      | NaN \<Rightarrow> Inl ValueError)"

section \<open>Token bucket (background-service/src/limits.py)\<close>

text \<open>
  Readings of the clock are finite floats. \<open>token_refill\<close> is the three statements that
  \<open>_refill\<close> of limits.py and \<open>_consume_token\<close> of main.py share,
  \<open>elapsed = now - last; refill = int(elapsed * (capacity / 60))\<close>, with the exception
  they may raise. (The first lines of limits.py import a name \<open>Config\<close> that the
  service's config.py does not define; the class is taken as it stands, in a module
  whose imports have been resolved.)
\<close>

record limiter =
  capacity :: int
  tokens :: int
  allow_4k :: bool
  last_refill :: real

definition TokenBucketLimiter :: "int \<Rightarrow> bool \<Rightarrow> real \<Rightarrow> limiter" where
  "TokenBucketLimiter rate_per_minute allow now =
     \<lparr>capacity = rate_per_minute, tokens = rate_per_minute, allow_4k = allow,
      last_refill = now\<rparr>"

definition token_refill :: "int \<Rightarrow> real \<Rightarrow> real \<Rightarrow> error + int" where
  "token_refill rate since now =
     (let elapsed = float_sub now since in
      case int_true_div rate 60 of
        Inl e \<Rightarrow> Inl e
      | Inr per_second \<Rightarrow> py_int (float_mul elapsed per_second))"

definition refill :: "limiter \<Rightarrow> real \<Rightarrow> error + limiter" where
  "refill l now =
     (case token_refill (capacity l) (last_refill l) now of
        Inl e \<Rightarrow> Inl e
      | Inr n \<Rightarrow>
          Inr (if n > 0 then l\<lparr>tokens := min (capacity l) (tokens l + n), last_refill := now\<rparr>
               else l))"

text \<open>\<open>acquire\<close>: an exception of the refill leaves the call before the size check.\<close>

definition acquire :: "limiter \<Rightarrow> real \<Rightarrow> int \<times> int \<Rightarrow> (error + bool) \<times> limiter" where
  "acquire l0 now sz =
     (case refill l0 now of
        Inl e \<Rightarrow> (Inl e, l0)
      | Inr l \<Rightarrow>
          if (fst sz > 4096 \<or> snd sz > 4096) \<and> \<not> allow_4k l then (Inl OversizeError, l)
          else if tokens l > 0 then (Inr True, l\<lparr>tokens := tokens l - 1\<rparr>)
          else (Inl RateLimitError, l))"

text \<open>
  The refill as the specification words it,
  \<open>tokens = min(capacity, tokens + floor(elapsedSeconds * capacity / periodSeconds))\<close>,
  over exact numbers; it is compared with \<open>refill\<close> below.
\<close>

definition spec_refill :: "int \<Rightarrow> int \<Rightarrow> real \<Rightarrow> real \<Rightarrow> int" where
  "spec_refill cap toks elapsed_seconds period_seconds =
     min cap (toks + \<lfloor>elapsed_seconds * real_of_int cap / period_seconds\<rfloor>)"

section \<open>Polling the remote task (background-service/src/runway_adapter.py)\<close>

text \<open>
  One \<open>requests.get\<close> either raises \<open>requests.RequestException\<close> or returns a response
  with a status code and a decoded JSON body, of which the loop reads the keys
  \<open>status\<close> and \<open>failure_reason\<close>. Time is counted in milliseconds; the remote side is
  a function from the number of the request to the time the request takes and its outcome.
\<close>

record task_result =
  status :: "string option"
  failure_reason :: "string option"
  output_image :: "string option"

datatype poll_reply = RequestFailed | Response nat task_result

record poll_state =
  now_ms :: nat
  requests_made :: nat
  sleeps :: "nat list"

definition sleep :: "nat \<Rightarrow> poll_state \<Rightarrow> poll_state" where
  "sleep seconds s = s\<lparr>now_ms := now_ms s + 1000 * seconds, sleeps := sleeps s @ [seconds]\<rparr>"

definition request :: "(nat \<Rightarrow> nat \<times> poll_reply) \<Rightarrow> poll_state \<Rightarrow> poll_reply \<times> poll_state" where
  "request remote s =
     (snd (remote (requests_made s)),
      s\<lparr>now_ms := now_ms s + fst (remote (requests_made s)),
        requests_made := requests_made s + 1\<rparr>)"

text \<open>\<open>str\<close> of a status code, as the f-string of the error message formats it.\<close>

fun str_nat :: "nat \<Rightarrow> string" where
  "str_nat n =
     (if n < 10 then [''0123456789'' ! n]
      else str_nat (n div 10) @ [''0123456789'' ! (n mod 10)])"

declare str_nat.simps [simp del]

text \<open>
  The \<open>while\<close> loop. A reply that is neither a success nor a failure sleeps and runs
  the loop again; \<open>Inl e\<close> is the exception \<open>e\<close> leaving the loop.
\<close>

function poll_loop ::
  "(nat \<Rightarrow> nat \<times> poll_reply) \<Rightarrow> int \<Rightarrow> nat \<Rightarrow> poll_state \<Rightarrow> (error + task_result) \<times> poll_state" where
  "poll_loop remote max_wait_time start_time s =
     (if int (now_ms s) - int start_time < 1000 * max_wait_time
      then (case request remote s of
              (RequestFailed, s1) \<Rightarrow> poll_loop remote max_wait_time start_time (sleep 5 s1)
            | (Response code result, s1) \<Rightarrow>
                if code \<noteq> 200
                then (Inl (RuntimeError (''Failed to poll task: '' @ str_nat code)), s1)
                else if status result = Some ''SUCCEEDED'' then (Inr result, s1)
                else if status result = Some ''FAILED''
                then (Inl (RuntimeError (''Runway task failed: '' @
                        (case failure_reason result of None \<Rightarrow> ''Unknown error'' | Some m \<Rightarrow> m))), s1)
                else if status result = Some ''PENDING'' \<or> status result = Some ''RUNNING''
                then poll_loop remote max_wait_time start_time (sleep 2 s1)
                else poll_loop remote max_wait_time start_time (sleep 2 s1))
      else (Inl TimeoutError, s))"
  by pat_completeness auto
termination
  by (relation "measure (\<lambda>(remote, max_wait_time, start_time, s).
        nat (1000 * max_wait_time - (int (now_ms s) - int start_time)))")
     (auto simp: request_def sleep_def)

declare poll_loop.simps [simp del]


section \<open>Background generation (background-service/src/generate.py)\<close>

text \<open>
  The cache key is the tuple \<open>(prompt, negative_prompt, width, height, steps,
  guidance_scale, seed)\<close>. The diffusion pipeline is a function of the key and of the
  number of images sampled before (what a run without a seed depends on); it returns
  the image or the exception it raises.
\<close>

type_synonym cache_key = "string \<times> string \<times> int \<times> int \<times> int \<times> real \<times> int option"

datatype generator_log =
    CacheHit cache_key
  | Generating cache_key
  | GenerationComplete
  | GenerationFailed error

record sdxl_generator =
  pipeline_loaded :: bool
  cache :: "cache_key \<rightharpoonup> image"
  sampler_runs :: nat
  generator_logged :: "generator_log list"

definition generate_background ::
  "(nat \<Rightarrow> cache_key \<Rightarrow> error + image) \<Rightarrow> sdxl_generator \<Rightarrow> cache_key \<Rightarrow>
   (error + image) \<times> sdxl_generator" where
  "generate_background sampler g cache_key =
     (if \<not> pipeline_loaded g then (Inl (RuntimeError ''SDXL pipeline not available''), g)
      else (case cache g cache_key of
              Some img \<Rightarrow> (Inr img, g\<lparr>generator_logged := generator_logged g @ [CacheHit cache_key]\<rparr>)
            | None \<Rightarrow>
                (case sampler (sampler_runs g) cache_key of
                   Inl e \<Rightarrow>
                     (Inl e, g\<lparr>sampler_runs := sampler_runs g + 1,
                               generator_logged :=
                                 generator_logged g @ [Generating cache_key, GenerationFailed e]\<rparr>)
                 | Inr bgr_image \<Rightarrow>
                     (Inr bgr_image,
                      g\<lparr>cache := (cache g)(cache_key \<mapsto> bgr_image),
                        sampler_runs := sampler_runs g + 1,
                        generator_logged :=
                          generator_logged g @ [Generating cache_key, GenerationComplete]\<rparr>))))"

section \<open>Loading an image (background-service/src/io.py)\<close>

text \<open>
  The Python values that reach \<open>load_image\<close> and leave it: \<open>bytes\<close>, a \<open>str\<close>, a numpy
  array (height, width, pixels), a PIL image, and a pair. \<open>load_image\<close> builds
  \<open>Path(image_path)\<close> first, which raises \<open>TypeError\<close> unless the argument is a \<open>str\<close>
  (or a path object, which no caller passes); for a \<open>str\<close> it opens and decodes the file
  (\<open>open_file\<close>, with the exceptions of a missing or unreadable file) and returns the pair
  \<open>(cv_image, pil_image)\<close>. Its handler logs the exception and raises it again.
\<close>

datatype py_object =
    PyBytes "nat list"
  | PyStr string
  | NdArray int int image
  | PilImage image
  | PyTuple py_object py_object

definition load_image ::
  "(string \<Rightarrow> error + int \<times> int \<times> image) \<Rightarrow> py_object \<Rightarrow> error + py_object" where
  "load_image open_file image_path =
     (case image_path of
        PyStr p \<Rightarrow>
          (case open_file p of
             Inl e \<Rightarrow> Inl e
           | Inr (h, w, pixels) \<Rightarrow> Inr (PyTuple (NdArray h w pixels) (PilImage pixels)))
      | _ \<Rightarrow> Inl TypeError)"

text \<open>The attribute \<open>shape\<close>, which only an array has.\<close>

definition shape :: "py_object \<Rightarrow> error + int \<times> int" where
  "shape obj = (case obj of NdArray h w pixels \<Rightarrow> Inr (h, w) | _ \<Rightarrow> Inl AttributeError)"

text \<open>
  The names that io.py binds at module level; \<open>from .io import n\<close> raises \<open>ImportError\<close>
  for any other name. main.py imports \<open>load_image\<close>, \<open>save_image\<close> and
  \<open>generate_output_path\<close> from it.
\<close>

definition io_names :: "string list" where
  "io_names =
     [''hashlib'', ''Path'', ''Tuple'', ''Optional'', ''np'', ''Image'', ''ImageOps'', ''cv2'',
      ''log'', ''load_image'', ''save_image_png'', ''save_image_jpg'', ''save_mask'',
      ''generate_output_paths'', ''resize_image'']"

fun import_from_io :: "string list \<Rightarrow> error option" where
  "import_from_io [] = None"
| "import_from_io (n # ns) = (if n \<in> set io_names then import_from_io ns else Some ImportError)"

section \<open>The replace endpoint (background-service/src/main.py)\<close>

datatype bg_engine = SDXL | RUNWAY

text \<open>What the service reads from its settings and from the environment variables.\<close>

record service_env =
  reqs_per_min :: int
  configured_engine :: bg_engine
  env_allow_4k :: bool
  fallback_local :: bool

datatype engine_call = RemoteCall | LocalCall

text \<open>
  The module's state: the token bucket of main.py, the global generator (\<open>None\<close> until
  \<open>get_sdxl_generator\<close> builds it) and, for the record, the engines called so far.
\<close>

record service_state =
  bucket_tokens :: int
  bucket_last :: real
  sdxl :: "sdxl_generator option"
  engine_calls :: "engine_call list"

record replace_form =
  prompt :: string
  negative_prompt :: string
  steps :: int
  guidance_scale :: real
  seed :: "int option"

text \<open>
  The calls of one request that leave main.py: the clock, the bytes of the upload
  (\<open>await file.read()\<close>), the file system under \<open>load_image\<close>, the masking, the remote
  generation (the bytes of the file it leaves), loading and sampling the diffusion
  pipeline, and the steps after the generation (resize, composite, save) that end with
  the output path.
\<close>

record request_world =
  time_now :: real
  upload :: "nat list"
  open_file :: "string \<Rightarrow> error + int \<times> int \<times> image"
  masking_fault :: "error option"
  remote_generate :: "error + nat list"
  load_pipeline_fault :: "error option"
  sampler :: "nat \<Rightarrow> cache_key \<Rightarrow> error + image"
  composite_and_save :: "py_object \<Rightarrow> error + string"

record processing_response =
  success :: bool
  message :: string
  out_png :: "string option"
  out_jpg :: "string option"
  mask_path :: "string option"
  meta :: "(string \<times> string) list"
  processing_time :: "real option"
  engine_used :: "string option"

text \<open>
  \<open>_consume_token\<close>: the refill of limits.py over the module's own bucket, then the
  token is taken if there is one.
\<close>

definition consume_token ::
  "service_env \<Rightarrow> real \<Rightarrow> service_state \<Rightarrow> (error + bool) \<times> service_state" where
  "consume_token env now st =
     (case token_refill (reqs_per_min env) (bucket_last st) now of
        Inl e \<Rightarrow> (Inl e, st)
      | Inr n \<Rightarrow>
          (let st1 = (if n > 0
                      then st\<lparr>bucket_tokens := min (reqs_per_min env) (bucket_tokens st + n),
                              bucket_last := now\<rparr>
                      else st)
           in if bucket_tokens st1 > 0
              then (Inr True, st1\<lparr>bucket_tokens := bucket_tokens st1 - 1\<rparr>)
              else (Inr False, st1)))"

text \<open>
  The names that runway_adapter.py binds at module level; \<open>from .runway_adapter import n\<close>
  raises \<open>ImportError\<close> for any other name.
\<close>

definition runway_adapter_names :: "string list" where
  "runway_adapter_names =
     [''requests'', ''time'', ''base64'', ''io'', ''np'', ''cv2'', ''Image'', ''Optional'',
      ''Dict'', ''Any'', ''log'', ''settings'', ''RunwayAdapter'', ''_runway_adapter'',
      ''get_runway_adapter'', ''generate_background_runway'']"

definition import_from_runway_adapter :: "string \<Rightarrow> error option" where
  "import_from_runway_adapter n = (if n \<in> set runway_adapter_names then None else Some ImportError)"

definition get_sdxl_generator :: "request_world \<Rightarrow> service_state \<Rightarrow> (error + sdxl_generator)" where
  "get_sdxl_generator w st =
     (case sdxl st of
        Some g \<Rightarrow> Inr g
      | None \<Rightarrow>
          (case load_pipeline_fault w of
             Some e \<Rightarrow> Inl e
           | None \<Rightarrow> Inr \<lparr>pipeline_loaded = True, cache = Map.empty, sampler_runs = 0,
                          generator_logged = []\<rparr>))"

definition generate_background_sdxl ::
  "request_world \<Rightarrow> cache_key \<Rightarrow> service_state \<Rightarrow> (error + image) \<times> service_state" where
  "generate_background_sdxl w cache_key st =
     (case get_sdxl_generator w st of
        Inl e \<Rightarrow> (Inl e, st)
      | Inr g \<Rightarrow>
          (case generate_background (sampler w) g cache_key of
             (r, g') \<Rightarrow> (r, st\<lparr>sdxl := Some g'\<rparr>)))"

text \<open>
  The block \<open>if engine == BGEngine.RUNWAY\<close>: its result is the exception that leaves it,
  or the pair of \<open>generated_bg\<close> and \<open>engine\<close> after it. The file that the remote
  generation leaves is read and its bytes are passed to \<open>load_image\<close>.
\<close>

definition runway_block ::
  "service_env \<Rightarrow> request_world \<Rightarrow> int \<Rightarrow> service_state \<Rightarrow>
   (error + py_object option \<times> bg_engine) \<times> service_state" where
  "runway_block env w max_dim st =
     (case (if max_dim > 4096 \<and> \<not> env_allow_4k env then (Inl (HTTPException 400), st)
            else (case import_from_runway_adapter ''generate_background_remote'' of
                    Some e \<Rightarrow> (Inl e, st\<lparr>engine_calls := engine_calls st @ [RemoteCall]\<rparr>)
                  | None \<Rightarrow>
                      (case remote_generate w of
                         Inl e \<Rightarrow> Inl e
                       | Inr tmp_bytes \<Rightarrow> load_image (open_file w) (PyBytes tmp_bytes),
                       st\<lparr>engine_calls := engine_calls st @ [RemoteCall]\<rparr>))) of
        (Inr generated_bg, st1) \<Rightarrow> (Inr (Some generated_bg, RUNWAY), st1)
      | (Inl e, st1) \<Rightarrow>
          if fallback_local env then (Inr (None, SDXL), st1)
          else (Inl (HTTPException 500), st1))"

text \<open>
  The block \<open>if engine == BGEngine.SDXL\<close>, which always asks for an array of 1024 by
  1024.
\<close>

definition sdxl_block ::
  "service_env \<Rightarrow> request_world \<Rightarrow> replace_form \<Rightarrow> int \<Rightarrow> service_state \<Rightarrow>
   (error + py_object) \<times> service_state" where
  "sdxl_block env w form max_dim st =
     (if max_dim > 4096 \<and> \<not> env_allow_4k env then (Inl (HTTPException 400), st)
      else (case generate_background_sdxl w
                   (prompt form, negative_prompt form, 1024, 1024, steps form,
                    guidance_scale form, seed form)
                   (st\<lparr>engine_calls := engine_calls st @ [LocalCall]\<rparr>) of
              (Inl e, st1) \<Rightarrow> (Inl e, st1)
            | (Inr img, st1) \<Rightarrow> (Inr (NdArray 1024 1024 img), st1)))"

definition generate_new_background ::
  "service_env \<Rightarrow> request_world \<Rightarrow> replace_form \<Rightarrow> int \<Rightarrow> service_state \<Rightarrow>
   (error + py_object) \<times> service_state" where
  "generate_new_background env w form max_dim st =
     (case (if configured_engine env = RUNWAY then runway_block env w max_dim st
            else (Inr (None, configured_engine env), st)) of
        (Inl e, st1) \<Rightarrow> (Inl e, st1)
      | (Inr (generated_bg, engine), st1) \<Rightarrow>
          (case (if engine = SDXL
                 then (case sdxl_block env w form max_dim st1 of
                         (Inl e, st2) \<Rightarrow> (Inl e, st2)
                       | (Inr img, st2) \<Rightarrow> (Inr (Some img), st2))
                 else (Inr generated_bg, st1)) of
             (Inl e, st2) \<Rightarrow> (Inl e, st2)
           | (Inr None, st2) \<Rightarrow> (Inl (HTTPException 500), st2)
           | (Inr (Some img), st2) \<Rightarrow> (Inr img, st2)))"

text \<open>
  The response that ends the \<open>try\<close> block. It is built with the keywords \<open>success\<close>,
  \<open>output_path\<close> and \<open>message\<close>; \<open>output_path\<close> is not a field of \<open>ProcessingResponse\<close>,
  and the fields that are not given keep their defaults.
\<close>

definition completed_response :: "string \<Rightarrow> processing_response" where
  "completed_response out_path =
     \<lparr>success = True, message = ''Background replacement completed successfully'',
      out_png = None, out_jpg = None, mask_path = None, meta = [], processing_time = None,
      engine_used = None\<rparr>"

text \<open>
  The \<open>try\<close> block of \<open>replace_background\<close>. The uploaded bytes are passed to
  \<open>load_image\<close>, and what it returns is asked for its \<open>shape\<close> (first in the line that is
  logged, then for the target size).
\<close>

definition replace_try ::
  "service_env \<Rightarrow> request_world \<Rightarrow> replace_form \<Rightarrow> service_state \<Rightarrow>
   (error + processing_response) \<times> service_state" where
  "replace_try env w form st =
     (if steps form < 1 \<or> steps form > 100 then (Inl (HTTPException 400), st)
      else if guidance_scale form < 1 \<or> guidance_scale form > 20 then (Inl (HTTPException 400), st)
      else (case load_image (open_file w) (PyBytes (upload w)) of
              Inl e \<Rightarrow> (Inl e, st)
            | Inr input_image \<Rightarrow>
                (case shape input_image of
                   Inl e \<Rightarrow> (Inl e, st)
                 | Inr (target_height, target_width) \<Rightarrow>
                     (case masking_fault w of
                        Some e \<Rightarrow> (Inl e, st)
                      | None \<Rightarrow>
                          (case generate_new_background env w form
                                  (max target_width target_height) st of
                             (Inl e, st1) \<Rightarrow> (Inl e, st1)
                           | (Inr generated_bg, st1) \<Rightarrow>
                               (case composite_and_save w generated_bg of
                                  Inl e \<Rightarrow> (Inl e, st1)
                                | Inr out_path \<Rightarrow>
                                    (Inr (completed_response out_path), st1)))))))"

text \<open>
  The endpoint: the token bucket first, outside the \<open>try\<close> block, then the \<open>try\<close> block
  under its two handlers (\<open>except HTTPException: raise\<close> and \<open>except Exception\<close>, which
  raises the status 500). \<open>Inl (HTTPException c)\<close> is the error response with the
  status \<open>c\<close>.
\<close>

definition replace_background ::
  "service_env \<Rightarrow> request_world \<Rightarrow> replace_form \<Rightarrow> service_state \<Rightarrow>
   (error + processing_response) \<times> service_state" where
  "replace_background env w form st =
     (case consume_token env (time_now w) st of
        (Inl e, st1) \<Rightarrow> (Inl e, st1)
      | (Inr False, st1) \<Rightarrow> (Inl (HTTPException 429), st1)
      | (Inr True, st1) \<Rightarrow>
          (case replace_try env w form st1 of
             (Inr response, st2) \<Rightarrow> (Inr response, st2)
           | (Inl (HTTPException c), st2) \<Rightarrow> (Inl (HTTPException c), st2)
           | (Inl e, st2) \<Rightarrow> (Inl (HTTPException 500), st2)))"

section \<open>Sample inputs\<close>

text \<open>
  Concrete inputs on which the properties below are run. In \<open>sample_world\<close> the files
  \<open>/nas/a.jpg\<close> and \<open>/nas/a-copy.jpg\<close> hold the same bytes, every collaborator
  succeeds, and the digest is a stand-in that prefixes its input.
\<close>

definition sample_world :: collaborators where
  "sample_world =
     \<lparr>sha256_hex = (\<lambda>bytes. ''digest-of-'' @ bytes),
      read_file = (\<lambda>p. if p = ''/nas/a.jpg'' \<or> p = ''/nas/a-copy.jpg'' then Inr ''JPEG-A''
                        else if p = ''/nas/b.jpg'' then Inr ''JPEG-B'' else Inl OSError),
      image_open = (\<lambda>p. Inr [1, 2, 3]),
      compute_perceptual_hash =
        (\<lambda>p. if p = ''/nas/b.jpg'' then Inr ''70f1e3c78f1f3e7c'' else Inr ''8f0e1c3870e0c183''),
      score_image = (\<lambda>p. Inr \<lparr>aesthetic = 4 / 5, sharpness = 150, exposure = 3 / 5, blur = 150\<rparr>),
      enhancer_process_image = Inr,
      apply_watermark = Inr,
      face_blurrer_process_image = Inr,
      generate_output_path = (\<lambda>fs p. Inr (''/media/curated'' @ p)),
      image_save = (\<lambda>img p. None),
      sidecar_write = (\<lambda>p. None),
      select_fault = None,
      insert_fault = None,
      clock = 0\<rparr>"

definition fresh_state :: pipeline_state where
  "fresh_state = \<lparr>db = Map.empty, seen_hashes = [], files = Map.empty, printed = []\<rparr>"

definition no_face_blur :: config where
  "no_face_blur = default_config\<lparr>face_blur_enabled := False\<rparr>"

text \<open>
  A request to the replace endpoint: the upload is a JPEG file (its first bytes), the
  form is that of \<open>tests/test_replace.py\<close> (prompt \<open>a\<close>, seed 1). The sampler of
  \<open>sample_request\<close> returns an image that tells how many images were sampled before it;
  the service starts with ten tokens and no generator.
\<close>

definition sample_form :: replace_form where
  "sample_form =
     \<lparr>prompt = ''a'', negative_prompt = [], steps = 20, guidance_scale = 15 / 2, seed = Some 1\<rparr>"

definition sample_request :: request_world where
  "sample_request =
     \<lparr>time_now = 0, upload = [255, 216, 255, 224], open_file = (\<lambda>p. Inl OSError),
      masking_fault = None, remote_generate = Inl (RuntimeError ''Runway API error''),
      load_pipeline_fault = None, sampler = (\<lambda>n key. Inr [n]),
      composite_and_save = (\<lambda>img. Inr ''media/backgrounds/test_replaced.jpg'')\<rparr>"

definition runway_with_fallback :: service_env where
  "runway_with_fallback =
     \<lparr>reqs_per_min = 10, configured_engine = RUNWAY, env_allow_4k = False, fallback_local = True\<rparr>"

definition sdxl_only :: service_env where
  "sdxl_only =
     \<lparr>reqs_per_min = 10, configured_engine = SDXL, env_allow_4k = False, fallback_local = False\<rparr>"

definition service_start :: service_state where
  "service_start = \<lparr>bucket_tokens = 10, bucket_last = 0, sdxl = None, engine_calls = []\<rparr>"








section \<open>Properties of the curation engine\<close>

text \<open>
  C8. For every score set, \<open>should_keep_image\<close> returns without raising; it appends the
  aesthetic reason exactly when the aesthetic score is below the configured aesthetic
  threshold, the sharpness reason exactly when the sharpness is below the configured
  sharpness threshold, and the exposure reason exactly when the exposure is below 0.3, a
  constant of the code that no configuration changes; the image is kept if and only if
  the list of reasons is empty. The result depends on the configuration and the scores
  alone: the function neither reads nor changes any state.
\<close>

theorem should_keep_image_policy:
  "should_keep_image cfg (score_dict s) =
     (let reasons =
        (if aesthetic s < aesthetic_threshold cfg
         then [AestheticBelow (aesthetic s) (aesthetic_threshold cfg)] else []) @
        (if sharpness s < sharpness_threshold cfg
         then [SharpnessBelow (sharpness s) (sharpness_threshold cfg)] else []) @
        (if exposure s < 3 / 10 then [PoorExposure (exposure s)] else [])
      in Inr (reasons = [], reasons))"
  by (simp add: should_keep_image_def check_aesthetic_def check_sharpness_def check_exposure_def
        dict_get_def dict_item_def score_dict_def Let_def)













section \<open>Properties of the float arithmetic\<close>

lemma powi_pos: "0 \<le> k \<Longrightarrow> (2::real) powi k = 2 ^ nat k"
  by (simp add: power_int_def)
lemma powi_neg: "k < 0 \<Longrightarrow> (2::real) powi k = 1 / 2 ^ nat (- k)"
  by (simp add: power_int_def field_simps)

lemmas eval_double = nearest_double_def ulp_def expo_def round_half_even_def compute_bitlen Let_def
  powi_pos powi_neg

lemma real_pow2_le_int: "2 ^ n \<le> (m::int) \<Longrightarrow> (2::real) ^ n \<le> real_of_int m"
proof -
  assume "2 ^ n \<le> m"
  then have "real_of_int (2 ^ n) \<le> real_of_int m" by (simp only: of_int_le_iff)
  then show ?thesis by simp
qed

lemma real_int_le_pow2: "(m::int) \<le> 2 ^ n \<Longrightarrow> real_of_int m \<le> (2::real) ^ n"
proof -
  assume "m \<le> 2 ^ n"
  then have "real_of_int m \<le> real_of_int (2 ^ n)" by (simp only: of_int_le_iff)
  then show ?thesis by simp
qed

lemma expo_bounds:
  assumes "0 < x"
  shows "2 powi (expo x) \<le> x \<and> x < 2 powi (expo x + 1)"
proof (cases "1 \<le> x")
  case True
  then have n: "0 < \<lfloor>x\<rfloor>" by simp
  from bitlen_bounds[OF n]
  have lo: "2 ^ nat (bitlen \<lfloor>x\<rfloor> - 1) \<le> \<lfloor>x\<rfloor>" and hi: "\<lfloor>x\<rfloor> < 2 ^ nat (bitlen \<lfloor>x\<rfloor>)"
    by simp_all
  have k: "1 \<le> bitlen \<lfloor>x\<rfloor>" using n by (simp add: bitlen_alt_def)
  have e: "expo x = bitlen \<lfloor>x\<rfloor> - 1" using True by (simp add: expo_def)
  have "(2::real) ^ nat (bitlen \<lfloor>x\<rfloor> - 1) \<le> real_of_int \<lfloor>x\<rfloor>"
    using lo by (rule real_pow2_le_int)
  also have "\<dots> \<le> x" by simp
  finally have 1: "2 powi (expo x) \<le> x"
    using k by (simp add: e powi_pos)
  have "\<lfloor>x\<rfloor> + 1 \<le> 2 ^ nat (bitlen \<lfloor>x\<rfloor>)" using hi by simp
  then have "real_of_int (\<lfloor>x\<rfloor> + 1) \<le> (2::real) ^ nat (bitlen \<lfloor>x\<rfloor>)"
    by (rule real_int_le_pow2)
  moreover have "x < real_of_int (\<lfloor>x\<rfloor> + 1)" by linarith
  ultimately have "x < (2::real) ^ nat (bitlen \<lfloor>x\<rfloor>)" by linarith
  then have 2: "x < 2 powi (expo x + 1)"
    using k by (simp add: e powi_pos)
  from 1 2 show ?thesis ..
next
  case False
  with assms have y: "1 < 1 / x" by simp
  then have m: "0 < \<lceil>1 / x\<rceil> - 1" by linarith
  let ?m = "\<lceil>1 / x\<rceil> - 1"
  from bitlen_bounds[OF m]
  have lo: "2 ^ nat (bitlen ?m - 1) \<le> ?m" and hi: "?m < 2 ^ nat (bitlen ?m)"
    by simp_all
  have k: "1 \<le> bitlen ?m" using m by (simp add: bitlen_alt_def)
  have e: "expo x = - bitlen ?m" using False by (simp add: expo_def)
  have "?m + 1 \<le> 2 ^ nat (bitlen ?m)" using hi by simp
  then have "real_of_int (?m + 1) \<le> (2::real) ^ nat (bitlen ?m)"
    by (rule real_int_le_pow2)
  moreover have "1 / x \<le> real_of_int (?m + 1)" by simp
  ultimately have "1 / x \<le> 2 ^ nat (bitlen ?m)" by linarith
  then have "1 \<le> 2 ^ nat (bitlen ?m) * x"
    using assms by (simp add: field_simps)
  then have 1: "2 powi (expo x) \<le> x"
    using k assms by (simp add: e powi_neg field_simps)
  have "(2::real) ^ nat (bitlen ?m - 1) \<le> real_of_int ?m"
    using lo by (rule real_pow2_le_int)
  moreover have "real_of_int ?m < 1 / x" by linarith
  ultimately have lt: "2 ^ nat (bitlen ?m - 1) < 1 / x" by linarith
  then have lt': "2 ^ nat (bitlen ?m - 1) * x < 1"
    using assms by (simp add: field_simps)
  have 2: "x < 2 powi (expo x + 1)"
  proof (cases "bitlen ?m = 1")
    case True
    then show ?thesis using False by (simp add: e)
  next
    case False
    then have neg: "- bitlen ?m + 1 < 0" using k by simp
    have "nat (- (- bitlen ?m + 1)) = nat (bitlen ?m - 1)" by simp
    then have p: "(2::real) powi (- bitlen ?m + 1) = 1 / 2 ^ nat (bitlen ?m - 1)"
      using powi_neg[OF neg] by simp
    have "x < 1 / 2 ^ nat (bitlen ?m - 1)"
      using lt' by (simp add: field_simps)
    then show ?thesis
      unfolding e p .
  qed
  from 1 2 show ?thesis ..
qed

lemma expo_unique:
  assumes "0 < x" and "2 powi e \<le> x" and "x < 2 powi (e + 1)"
  shows "expo x = e"
proof (rule ccontr)
  assume ne: "expo x \<noteq> e"
  from expo_bounds[OF assms(1)]
  have lo: "2 powi (expo x) \<le> x" and hi: "x < 2 powi (expo x + 1)" by simp_all
  show False
  proof (cases "expo x < e")
    case True
    then have "(2::real) powi (expo x + 1) \<le> 2 powi e"
      by (intro power_int_increasing) simp_all
    with hi assms(2) show False by linarith
  next
    case False
    with ne have "e + 1 \<le> expo x" by simp
    then have "(2::real) powi (e + 1) \<le> 2 powi (expo x)"
      by (intro power_int_increasing) simp_all
    with lo assms(3) show False by linarith
  qed
qed

lemma expo_mono:
  assumes "0 < x" and "x \<le> y"
  shows "expo x \<le> expo y"
proof (rule ccontr)
  assume "\<not> expo x \<le> expo y"
  then have "expo y + 1 \<le> expo x" by simp
  then have "(2::real) powi (expo y + 1) \<le> 2 powi (expo x)"
    by (intro power_int_increasing) simp_all
  moreover from expo_bounds[of x] expo_bounds[of y] assms
  have "2 powi (expo x) \<le> x" "y < 2 powi (expo y + 1)" by simp_all
  ultimately show False using assms by linarith
qed

lemma round_half_even_bounds:
  "\<lfloor>x\<rfloor> \<le> round_half_even x \<and> round_half_even x \<le> \<lfloor>x\<rfloor> + 1"
  by (simp add: round_half_even_def Let_def)

lemma round_half_even_of_int [simp]: "round_half_even (of_int n) = n"
  by (simp add: round_half_even_def Let_def)

lemma round_half_even_mono:
  assumes "x \<le> y"
  shows "round_half_even x \<le> round_half_even y"
proof (cases "\<lfloor>x\<rfloor> = \<lfloor>y\<rfloor>")
  case True
  then show ?thesis using assms
    by (auto simp: round_half_even_def Let_def)
next
  case False
  with assms have "\<lfloor>x\<rfloor> + 1 \<le> \<lfloor>y\<rfloor>"
    using floor_mono[OF assms] by linarith
  with round_half_even_bounds[of x] round_half_even_bounds[of y] show ?thesis by linarith
qed

lemma ulp_pos: "0 < ulp x"
  by (simp add: ulp_def)

lemma nearest_double_pos:
  "0 < x \<Longrightarrow> nearest_double x = of_int (round_half_even (x / ulp x)) * ulp x"
  by (simp add: nearest_double_def)

lemma nearest_double_exact:
  assumes "0 < x" and "x = of_int n * ulp x"
  shows "nearest_double x = x"
proof -
  have "x / ulp x = of_int n"
    using assms(2) ulp_pos[of x] by (simp add: field_simps)
  then show ?thesis
    using assms by (simp add: nearest_double_pos)
qed

lemma powi_add: "(2::real) powi a * 2 powi b = 2 powi (a + b)"
  by (simp add: power_int_add)

lemma powi_diff: "(2::real) powi a / 2 powi b = 2 powi (a - b)"
  by (simp add: power_int_diff)

lemma nearest_double_powi:
  assumes "- 1074 \<le> k"
  shows "nearest_double (2 powi k) = 2 powi k"
proof -
  have pos: "(0::real) < 2 powi k" by simp
  have e: "expo (2 powi k) = k"
    by (rule expo_unique) (simp_all add: power_int_strict_increasing)
  let ?d = "k - (max k (- 1022) - 52)"
  have d: "0 \<le> ?d" using assms by simp
  have u: "ulp (2 powi k) = 2 powi (max k (- 1022) - 52)"
    by (simp add: ulp_def e)
  have A: "(2::real) powi k = 2 powi ?d * 2 powi (max k (- 1022) - 52)"
    by (subst powi_add) (simp add: add.commute)
  have B: "(2::real) powi ?d = of_int (2 ^ nat ?d)"
    using d by (simp add: powi_pos)
  have "(2::real) powi k = of_int (2 ^ nat ?d) * ulp (2 powi k)"
    using A unfolding B u .
  with pos show ?thesis by (rule nearest_double_exact)
qed

lemma nearest_double_mono:
  assumes "0 < x" and "x \<le> y"
  shows "nearest_double x \<le> nearest_double y"
proof -
  from assms have ypos: "0 < y" by simp
  define ex where "ex = max (expo x) (- 1022)"
  define ey where "ey = max (expo y) (- 1022)"
  have ux: "ulp x = 2 powi (ex - 52)" and uy: "ulp y = 2 powi (ey - 52)"
    using assms ypos by (simp_all add: ulp_def ex_def ey_def)
  have le: "ex \<le> ey" using expo_mono[OF assms] by (simp add: ex_def ey_def)
  have xe: "expo x + 1 \<le> ex + 1" by (simp add: ex_def)
  show ?thesis
  proof (cases "ex = ey")
    case True
    then have u: "ulp x = ulp y" by (simp add: ux uy)
    have "x / ulp y \<le> y / ulp y"
      using assms ulp_pos[of y] by (simp add: divide_right_mono)
    then have "round_half_even (x / ulp y) \<le> round_half_even (y / ulp y)"
      by (rule round_half_even_mono)
    then have "real_of_int (round_half_even (x / ulp y)) * ulp y
        \<le> real_of_int (round_half_even (y / ulp y)) * ulp y"
      using ulp_pos[of y] by (simp add: mult_right_mono)
    then show ?thesis
      using assms ypos by (simp add: nearest_double_pos u)
  next
    case False
    from le False have lt: "ex < ey" by (rule le_neq_trans)
    then have ey: "ey = expo y"
      by (simp add: ex_def ey_def max_def split: if_splits)
    from lt have lt1: "ex + 1 \<le> ey" by simp
    have "x < 2 powi (expo x + 1)" using expo_bounds[OF assms(1)] by simp
    also have "\<dots> \<le> 2 powi (ex + 1)"
      using xe by (intro power_int_increasing) simp_all
    finally have xlt: "x < 2 powi (ex + 1)" .
    have "x / ulp x \<le> 2 powi (ex + 1) / 2 powi (ex - 52)"
      unfolding ux using xlt by (simp add: divide_right_mono)
    also have "\<dots> = 2 powi 53" by (simp only: powi_diff) simp
    also have "\<dots> = of_int (2 ^ 53)" by (simp add: powi_pos)
    finally have "round_half_even (x / ulp x) \<le> round_half_even (of_int (2 ^ 53))"
      by (rule round_half_even_mono)
    then have "round_half_even (x / ulp x) \<le> 2 ^ 53"
      by (simp only: round_half_even_of_int)
    then have "real_of_int (round_half_even (x / ulp x)) \<le> 2 ^ 53"
      by (rule real_int_le_pow2)
    then have "real_of_int (round_half_even (x / ulp x)) * ulp x \<le> 2 ^ 53 * ulp x"
      using ulp_pos[of x] by (simp add: mult_right_mono)
    also have "2 ^ 53 * ulp x = 2 powi 53 * 2 powi (ex - 52)"
      by (simp add: ux powi_pos)
    also have "\<dots> = 2 powi (ex + 1)"
      by (subst powi_add) (simp add: add.commute)
    also have "\<dots> \<le> 2 powi ey"
      using lt1 by (intro power_int_increasing) simp_all
    finally have 1: "nearest_double x \<le> 2 powi ey"
      using assms by (simp add: nearest_double_pos)
    have "2 powi ey \<le> y" using expo_bounds[OF ypos] ey by simp
    then have "2 powi ey / 2 powi (ey - 52) \<le> y / ulp y"
      unfolding uy by (simp add: divide_right_mono)
    moreover have "(2::real) powi ey / 2 powi (ey - 52) = 2 powi 52"
      by (simp only: powi_diff) simp
    moreover have "(2::real) powi 52 = of_int (2 ^ 52)" by (simp add: powi_pos)
    ultimately have "of_int (2 ^ 52) \<le> y / ulp y" by simp
    then have "round_half_even (of_int (2 ^ 52)) \<le> round_half_even (y / ulp y)"
      by (rule round_half_even_mono)
    then have "2 ^ 52 \<le> round_half_even (y / ulp y)"
      by (simp only: round_half_even_of_int)
    then have "(2::real) ^ 52 \<le> real_of_int (round_half_even (y / ulp y))"
      by (rule real_pow2_le_int)
    then have "2 ^ 52 * ulp y \<le> real_of_int (round_half_even (y / ulp y)) * ulp y"
      using ulp_pos[of y] by (simp add: mult_right_mono)
    moreover have "2 ^ 52 * ulp y = 2 powi 52 * 2 powi (ey - 52)"
      by (simp add: uy powi_pos)
    moreover have "(2::real) powi 52 * 2 powi (ey - 52) = 2 powi ey"
      by (subst powi_add) (simp add: add.commute)
    ultimately have 2: "2 powi ey \<le> nearest_double y"
      using ypos by (simp add: nearest_double_pos)
    from 1 2 show ?thesis by linarith
  qed
qed

lemma round_half_even_zero [simp]: "round_half_even 0 = 0"
  using round_half_even_of_int[of 0] by simp

lemma round_half_even_nonneg: "0 \<le> x \<Longrightarrow> 0 \<le> round_half_even x"
  using round_half_even_mono[of 0 x] by simp

lemma nearest_double_nonneg: "0 \<le> x \<Longrightarrow> 0 \<le> nearest_double x"
proof (cases "x = 0")
  case True
  then show ?thesis by (simp add: nearest_double_def)
next
  case False
  assume "0 \<le> x"
  with False have pos: "0 < x" by simp
  then have "0 \<le> x / ulp x" using ulp_pos[of x] by simp
  then have "0 \<le> round_half_even (x / ulp x)" by (rule round_half_even_nonneg)
  then show ?thesis using pos ulp_pos[of x] by (simp add: nearest_double_pos)
qed

lemma nearest_double_zero [simp]: "nearest_double 0 = 0"
  by (simp add: nearest_double_def)

lemma nearest_double_mono0:
  assumes "0 \<le> x" and "x \<le> y"
  shows "nearest_double x \<le> nearest_double y"
proof (cases "x = 0")
  case True
  then show ?thesis using assms nearest_double_nonneg[of y] by simp
next
  case False
  with assms have "0 < x" by simp
  then show ?thesis using assms(2) by (rule nearest_double_mono)
qed

lemma ulp_minus [simp]: "ulp (- x) = ulp x"
  by (simp add: ulp_def)

lemma nearest_double_minus: "nearest_double (- x) = - nearest_double x"
  by (simp add: nearest_double_def sgn_minus)

lemma nearest_double_abs_le:
  assumes "\<bar>x\<bar> \<le> 2 powi k" and "- 1074 \<le> k"
  shows "\<bar>nearest_double x\<bar> \<le> 2 powi k"
proof (cases "0 \<le> x")
  case True
  then have "nearest_double x \<le> nearest_double (2 powi k)"
    using assms(1) by (intro nearest_double_mono0) simp_all
  then show ?thesis
    using nearest_double_nonneg[OF True] nearest_double_powi[OF assms(2)] by simp
next
  case False
  then have nn: "0 \<le> - x" by simp
  then have "nearest_double (- x) \<le> nearest_double (2 powi k)"
    using assms(1) by (intro nearest_double_mono0) simp_all
  then show ?thesis
    using nearest_double_nonneg[OF nn] nearest_double_powi[OF assms(2)]
    by (simp add: nearest_double_minus)
qed

lemma nearest_double_one [simp]: "nearest_double 1 = 1"
  using nearest_double_powi[of 0] by simp

lemma nearest_double_ge_one: "1 \<le> x \<Longrightarrow> 1 \<le> nearest_double x"
  using nearest_double_mono0[of 1 x] by simp

lemma wait_restores_small:
  fixes c :: int
  assumes "1 \<le> c" and "c \<le> 59"
  shows "1 \<le> nearest_double (nearest_double (real_of_int \<lceil>60 / real_of_int c\<rceil>) * nearest_double (real_of_int c / 60))"
proof -
  from assms have "c = 1 \<or> c = 2 \<or> c = 3 \<or> c = 4 \<or> c = 5 \<or> c = 6 \<or> c = 7 \<or> c = 8 \<or> c = 9 \<or> c = 10 \<or> c = 11 \<or> c = 12 \<or> c = 13 \<or> c = 14 \<or> c = 15 \<or> c = 16 \<or> c = 17 \<or> c = 18 \<or> c = 19 \<or> c = 20 \<or> c = 21 \<or> c = 22 \<or> c = 23 \<or> c = 24 \<or> c = 25 \<or> c = 26 \<or> c = 27 \<or> c = 28 \<or> c = 29 \<or> c = 30 \<or> c = 31 \<or> c = 32 \<or> c = 33 \<or> c = 34 \<or> c = 35 \<or> c = 36 \<or> c = 37 \<or> c = 38 \<or> c = 39 \<or> c = 40 \<or> c = 41 \<or> c = 42 \<or> c = 43 \<or> c = 44 \<or> c = 45 \<or> c = 46 \<or> c = 47 \<or> c = 48 \<or> c = 49 \<or> c = 50 \<or> c = 51 \<or> c = 52 \<or> c = 53 \<or> c = 54 \<or> c = 55 \<or> c = 56 \<or> c = 57 \<or> c = 58 \<or> c = 59"
    by presburger
  then show ?thesis
    by (elim disjE) (simp_all add: eval_double)
qed

lemma pow_bound: "(2::real) powi 1000 < 2 ^ 1024" "(2::real) powi 500 < 2 ^ 1024"
  by (simp_all add: powi_pos)

lemma round_double_finite:
  "\<bar>x\<bar> \<le> 2 powi 1000 \<Longrightarrow> round_double x = Finite (nearest_double x)"
proof -
  assume "\<bar>x\<bar> \<le> 2 powi 1000"
  then have "\<bar>nearest_double x\<bar> \<le> 2 powi 1000" by (rule nearest_double_abs_le) simp
  with pow_bound(1) have lt: "\<bar>nearest_double x\<bar> < 2 ^ 1024" by linarith
  have n1: "\<not> 2 ^ 1024 \<le> nearest_double x" using lt by linarith
  have n2: "\<not> nearest_double x \<le> - (2 ^ 1024)" using lt by linarith
  show ?thesis by (simp only: round_double_def Let_def n1 n2 if_False)
qed

lemma powi_500_le: "(2::real) powi 500 \<le> 2 powi 1000"
  by (intro power_int_increasing) simp_all

lemma int_true_div_60:
  assumes "\<bar>c\<bar> \<le> 2 ^ 500"
  shows "int_true_div c 60 = Inr (nearest_double (real_of_int c / 60))"
    and "\<bar>nearest_double (real_of_int c / 60)\<bar> \<le> 2 powi 500"
proof -
  from assms have "real_of_int \<bar>c\<bar> \<le> 2 ^ 500" by (rule real_int_le_pow2)
  then have "\<bar>real_of_int c / 60\<bar> \<le> 2 powi 500" by (simp add: powi_pos)
  then show b: "\<bar>nearest_double (real_of_int c / 60)\<bar> \<le> 2 powi 500"
    by (rule nearest_double_abs_le) simp
  with pow_bound(2) have "\<bar>nearest_double (real_of_int c / 60)\<bar> < 2 ^ 1024" by linarith
  then have n: "\<not> 2 ^ 1024 \<le> \<bar>nearest_double (real_of_int c / 60)\<bar>" by linarith
  have z: "(60::int) \<noteq> 0" by simp
  show "int_true_div c 60 = Inr (nearest_double (real_of_int c / 60))"
    unfolding int_true_div_def Let_def by (simp only: n z if_False of_int_numeral)
qed

lemma float_sub_finite:
  assumes "\<bar>now - since\<bar> \<le> 2 ^ 500"
  shows "float_sub now since = Finite (nearest_double (now - since))"
    and "\<bar>nearest_double (now - since)\<bar> \<le> 2 powi 500"
proof -
  from assms have a: "\<bar>now - since\<bar> \<le> 2 powi 500" by (simp add: powi_pos)
  then show "\<bar>nearest_double (now - since)\<bar> \<le> 2 powi 500"
    by (rule nearest_double_abs_le) simp
  from a powi_500_le have "\<bar>now - since\<bar> \<le> 2 powi 1000" by linarith
  then show "float_sub now since = Finite (nearest_double (now - since))"
    by (simp add: float_sub_def round_double_finite)
qed

lemma token_refill_bounded:
  assumes c: "\<bar>c\<bar> \<le> 2 ^ 500" and t: "\<bar>now - since\<bar> \<le> 2 ^ 500"
  shows "token_refill c since now =
     Inr (let x = nearest_double (nearest_double (now - since) * nearest_double (real_of_int c / 60))
          in if 0 \<le> x then \<lfloor>x\<rfloor> else \<lceil>x\<rceil>)"
proof -
  let ?E = "nearest_double (now - since)" and ?F = "nearest_double (real_of_int c / 60)"
  have "\<bar>?E * ?F\<bar> = \<bar>?E\<bar> * \<bar>?F\<bar>" by (rule abs_mult)
  also have "\<dots> \<le> 2 powi 500 * 2 powi 500"
    using float_sub_finite(2)[OF t] int_true_div_60(2)[OF c] by (intro mult_mono) simp_all
  also have "\<dots> = 2 powi 1000" by (subst powi_add) simp
  finally have "round_double (?E * ?F) = Finite (nearest_double (?E * ?F))"
    by (rule round_double_finite)
  then show ?thesis
    by (simp add: token_refill_def float_sub_finite(1)[OF t] int_true_div_60(1)[OF c] float_mul_def
        py_int_def Let_def)
qed

lemma token_refill_zero_elapsed:
  assumes "\<bar>c\<bar> \<le> 2 ^ 500"
  shows "token_refill c t t = Inr 0"
  using token_refill_bounded[OF assms, of t t] by simp

lemma token_refill_after_wait:
  assumes c: "0 < c" "c \<le> 2 ^ 500"
    and w: "real_of_int \<lceil>60 / real_of_int c\<rceil> \<le> now - since" and t: "now - since \<le> 2 ^ 500"
  shows "\<exists>n. token_refill c since now = Inr n \<and> 1 \<le> n"
proof -
  let ?w = "real_of_int \<lceil>60 / real_of_int c\<rceil>"
  let ?E = "nearest_double (now - since)" and ?F = "nearest_double (real_of_int c / 60)"
  let ?G = "nearest_double ?w"
  have wpos: "1 \<le> ?w"
  proof -
    have "0 < 60 / real_of_int c" using c by simp
    then have "0 < \<lceil>60 / real_of_int c\<rceil>" by (simp only: zero_less_ceiling)
    then have "1 \<le> \<lceil>60 / real_of_int c\<rceil>" by simp
    then show ?thesis by (simp only: of_int_1_le_iff)
  qed
  have G1: "1 \<le> ?G" using wpos by (rule nearest_double_ge_one)
  have w0: "0 \<le> ?w" using wpos by linarith
  have GE: "?G \<le> ?E" using w0 w by (rule nearest_double_mono0)
  have F0: "0 \<le> ?F" using c by (intro nearest_double_nonneg) simp
  have prod: "1 \<le> nearest_double (?G * ?F)"
  proof (cases "c \<le> 59")
    case True
    with c show ?thesis by (intro wait_restores_small) simp_all
  next
    case False
    then have "1 \<le> real_of_int c / 60" by simp
    then have "1 \<le> ?F" by (rule nearest_double_ge_one)
    with G1 have "1 * 1 \<le> ?G * ?F" by (intro mult_mono) simp_all
    then have "1 \<le> ?G * ?F" by simp
    then show ?thesis by (rule nearest_double_ge_one)
  qed
  have "0 \<le> ?G * ?F" using G1 F0 by simp
  moreover have "?G * ?F \<le> ?E * ?F" using GE F0 by (rule mult_right_mono)
  ultimately have "nearest_double (?G * ?F) \<le> nearest_double (?E * ?F)"
    by (rule nearest_double_mono0)
  with prod have x1: "1 \<le> nearest_double (?E * ?F)" by linarith
  have ca: "\<bar>c\<bar> \<le> 2 ^ 500" using c by simp
  have ta: "\<bar>now - since\<bar> \<le> 2 ^ 500" using w0 w t by linarith
  have "1 \<le> \<lfloor>nearest_double (?E * ?F)\<rfloor>" using x1 by (simp add: le_floor_iff)
  then show ?thesis
    using token_refill_bounded[OF ca ta] x1 by (simp add: Let_def)
qed

section \<open>Properties of the token bucket\<close>

lemmas eval_bucket =
  acquire_def refill_def token_refill_def float_sub_def float_mul_def int_true_div_def py_int_def
  round_double_def TokenBucketLimiter_def

lemma acquire_refill_error:
  "token_refill (capacity l) (last_refill l) now = Inl e \<Longrightarrow> acquire l now sz = (Inl e, l)"
  by (simp add: acquire_def refill_def)

lemma acquire_oversize:
  "token_refill (capacity l) (last_refill l) now = Inr n \<Longrightarrow>
   (fst sz > 4096 \<or> snd sz > 4096) \<Longrightarrow> \<not> allow_4k l \<Longrightarrow>
   acquire l now sz =
     (Inl OversizeError,
      if n > 0 then l\<lparr>tokens := min (capacity l) (tokens l + n), last_refill := now\<rparr> else l)"
  by (simp add: acquire_def refill_def)

lemma refill_zero_elapsed: "\<bar>capacity l\<bar> \<le> 2 ^ 500 \<Longrightarrow> refill l (last_refill l) = Inr l"
  by (simp only: refill_def token_refill_zero_elapsed) simp

text \<open>
  The refill can raise: for a capacity of \<open>60 * 2^1024\<close> the quotient \<open>capacity / 60\<close>
  is too large for a float, and every call of \<open>acquire\<close> raises \<open>OverflowError\<close>.
\<close>

lemma token_refill_overflow: "token_refill (60 * 2 ^ 1024) since now = Inl OverflowError"
proof -
  have q: "real_of_int (60 * 2 ^ 1024) / real_of_int 60 = 2 powi 1024"
    by (simp add: powi_pos)
  have r: "nearest_double (2 powi 1024) = 2 ^ 1024"
    using nearest_double_powi[of 1024] by (simp add: powi_pos)
  have z: "(60::int) \<noteq> 0" by simp
  have a: "(2::real) ^ 1024 \<le> \<bar>2 ^ 1024\<bar>" by simp
  have "int_true_div (60 * 2 ^ 1024) 60 = Inl OverflowError"
    unfolding int_true_div_def Let_def q r by (simp only: z a if_False if_True)
  then show ?thesis by (simp add: token_refill_def)
qed

lemma acquire_overflow:
  "acquire (TokenBucketLimiter (60 * 2 ^ 1024) allow t0) t sz =
     (Inl OverflowError, TokenBucketLimiter (60 * 2 ^ 1024) allow t0)"
  using acquire_refill_error[of "TokenBucketLimiter (60 * 2 ^ 1024) allow t0" t OverflowError sz]
    token_refill_overflow[of t0 t]
  by (simp add: TokenBucketLimiter_def)

text \<open>
  C2 (as amended). For every limiter state and every request whose width or height is
  above 4096 while \<open>allow_4k\<close> is unset, \<open>acquire\<close> takes no token, whatever the number
  of tokens: the size check stands before the token check, and behind the refill that
  opens the call. When the arithmetic of the refill raises (an overflow), \<open>acquire\<close>
  raises that exception and the limiter is unchanged; otherwise \<open>acquire\<close> raises
  \<open>OversizeError\<close> and leaves the limiter as the refill leaves it: with
  \<open>min(capacity, tokens + n)\<close> tokens when \<open>n = int(elapsed * (capacity / 60)) > 0\<close>, in
  double arithmetic, and unchanged otherwise, so never with fewer tokens than before
  (for a count within the capacity). The refill does not raise when the capacity and
  the elapsed time are at most \<open>2^500\<close> in magnitude, and it changes nothing when no time
  has passed since the last refill.
\<close>

theorem acquire_oversize_consumes_no_token:
  "(fst sz > 4096 \<or> snd sz > 4096) \<and> \<not> allow_4k l \<longrightarrow>
     (case token_refill (capacity l) (last_refill l) now of
        Inl e \<Rightarrow> acquire l now sz = (Inl e, l)
      | Inr n \<Rightarrow>
          acquire l now sz =
            (Inl OversizeError,
             if n > 0 then l\<lparr>tokens := min (capacity l) (tokens l + n), last_refill := now\<rparr>
             else l) \<and>
          (tokens l \<le> capacity l \<longrightarrow> tokens l \<le> tokens (snd (acquire l now sz)))) \<and>
     (\<bar>capacity l\<bar> \<le> 2 ^ 500 \<and> \<bar>now - last_refill l\<bar> \<le> 2 ^ 500 \<longrightarrow>
        fst (acquire l now sz) = Inl OversizeError \<and>
        token_refill (capacity l) (last_refill l) now =
          Inr (let x = nearest_double (nearest_double (now - last_refill l) *
                                       nearest_double (real_of_int (capacity l) / 60))
               in if 0 \<le> x then \<lfloor>x\<rfloor> else \<lceil>x\<rceil>)) \<and>
     (\<bar>capacity l\<bar> \<le> 2 ^ 500 \<longrightarrow> acquire l (last_refill l) sz = (Inl OversizeError, l))"
proof (intro impI conjI)
  assume h: "(fst sz > 4096 \<or> snd sz > 4096) \<and> \<not> allow_4k l"
  then have big: "fst sz > 4096 \<or> snd sz > 4096" and na: "\<not> allow_4k l" by blast+
  show "case token_refill (capacity l) (last_refill l) now of
        Inl e \<Rightarrow> acquire l now sz = (Inl e, l)
      | Inr n \<Rightarrow>
          acquire l now sz =
            (Inl OversizeError,
             if n > 0 then l\<lparr>tokens := min (capacity l) (tokens l + n), last_refill := now\<rparr>
             else l) \<and>
          (tokens l \<le> capacity l \<longrightarrow> tokens l \<le> tokens (snd (acquire l now sz)))"
  proof (cases "token_refill (capacity l) (last_refill l) now")
    case (Inl e)
    then show ?thesis by (simp add: acquire_refill_error)
  next
    case (Inr n)
    then show ?thesis using acquire_oversize[OF Inr big na] by simp
  qed
  {
    assume b: "\<bar>capacity l\<bar> \<le> 2 ^ 500 \<and> \<bar>now - last_refill l\<bar> \<le> 2 ^ 500"
    then have r: "token_refill (capacity l) (last_refill l) now =
          Inr (let x = nearest_double (nearest_double (now - last_refill l) *
                                       nearest_double (real_of_int (capacity l) / 60))
               in if 0 \<le> x then \<lfloor>x\<rfloor> else \<lceil>x\<rceil>)"
      using token_refill_bounded[of "capacity l" now "last_refill l"] by blast
    show "fst (acquire l now sz) = Inl OversizeError"
      using acquire_oversize[OF r big na] by simp
    show "token_refill (capacity l) (last_refill l) now =
          Inr (let x = nearest_double (nearest_double (now - last_refill l) *
                                       nearest_double (real_of_int (capacity l) / 60))
               in if 0 \<le> x then \<lfloor>x\<rfloor> else \<lceil>x\<rceil>)"
      by (rule r)
  }
  {
    assume c: "\<bar>capacity l\<bar> \<le> 2 ^ 500"
    show "acquire l (last_refill l) sz = (Inl OversizeError, l)"
      using acquire_oversize[OF token_refill_zero_elapsed[OF c] big na] by simp
  }
qed

theorem acquire_oversize_consumes_no_token_witness:
  "acquire \<lparr>capacity = 10, tokens = 3, allow_4k = False, last_refill = 0\<rparr> 12 (8192, 8192)
     = (Inl OversizeError, \<lparr>capacity = 10, tokens = 5, allow_4k = False, last_refill = 12\<rparr>) \<and>
   acquire \<lparr>capacity = 10, tokens = 3, allow_4k = False, last_refill = 0\<rparr> 0 (8192, 8192)
     = (Inl OversizeError, \<lparr>capacity = 10, tokens = 3, allow_4k = False, last_refill = 0\<rparr>)"
proof -
  let ?l = "\<lparr>capacity = 10, tokens = 3, allow_4k = False, last_refill = 0\<rparr>"
  have r: "token_refill 10 0 12 = Inr 2"
    by (simp add: eval_bucket eval_double)
  have b: "\<bar>10::int\<bar> \<le> 2 ^ 500" by simp
  from acquire_oversize_consumes_no_token[of "(8192, 8192)" ?l 12] r b
  show ?thesis by simp
qed

text \<open>
  The claim C2 as first stated, "the token count is exactly the same after the call as
  before it", fails: an empty bucket of capacity 10, last refilled 60 seconds ago, rejects
  a request of 5000 by 5000 with \<open>OversizeError\<close> and holds 10 tokens afterwards.
\<close>

theorem acquire_oversize_counterexample:
  "fst (acquire \<lparr>capacity = 10, tokens = 0, allow_4k = False, last_refill = 0\<rparr> 60 (5000, 5000))
     = Inl OversizeError \<and>
   tokens (snd (acquire \<lparr>capacity = 10, tokens = 0, allow_4k = False, last_refill = 0\<rparr> 60 (5000, 5000)))
     = 10 \<and>
   tokens (snd (acquire \<lparr>capacity = 10, tokens = 0, allow_4k = False, last_refill = 0\<rparr> 60 (5000, 5000)))
     \<noteq> tokens \<lparr>capacity = 10, tokens = 0, allow_4k = False, last_refill = 0\<rparr>"
proof -
  have r: "token_refill 10 0 60 = Inr 10"
    by (simp add: eval_bucket eval_double)
  show ?thesis by (simp add: acquire_def refill_def r)
qed

lemma acquire_zero_elapsed:
  "\<bar>capacity l\<bar> \<le> 2 ^ 500 \<Longrightarrow> fst sz \<le> 4096 \<and> snd sz \<le> 4096 \<or> allow_4k l \<Longrightarrow>
   acquire l (last_refill l) sz =
     (if tokens l > 0 then (Inr True, l\<lparr>tokens := tokens l - 1\<rparr>) else (Inl RateLimitError, l))"
  by (auto simp: acquire_def refill_zero_elapsed)

lemma acquire_iterate:
  assumes b: "\<bar>c\<bar> \<le> 2 ^ 500" and ok: "fst sz \<le> 4096 \<and> snd sz \<le> 4096 \<or> allow"
  shows "k \<le> nat c \<Longrightarrow>
     ((\<lambda>l. snd (acquire l t0 sz)) ^^ k) (TokenBucketLimiter c allow t0) =
       \<lparr>capacity = c, tokens = c - int k, allow_4k = allow, last_refill = t0\<rparr>"
proof (induction k)
  case 0
  then show ?case by (simp add: TokenBucketLimiter_def)
next
  case (Suc k)
  then have IH: "((\<lambda>l. snd (acquire l t0 sz)) ^^ k) (TokenBucketLimiter c allow t0) =
       \<lparr>capacity = c, tokens = c - int k, allow_4k = allow, last_refill = t0\<rparr>"
    and pos: "c - int k > 0" by auto
  have "acquire \<lparr>capacity = c, tokens = c - int k, allow_4k = allow, last_refill = t0\<rparr> t0 sz
     = (Inr True, \<lparr>capacity = c, tokens = c - int k - 1, allow_4k = allow, last_refill = t0\<rparr>)"
    using acquire_zero_elapsed[of "\<lparr>capacity = c, tokens = c - int k, allow_4k = allow, last_refill = t0\<rparr>" sz]
      b ok pos
    by simp
  then show ?case by (simp add: IH)
qed

lemma acquire_after_wait:
  assumes c: "0 < c" "c \<le> 2 ^ 500"
    and ok: "fst sz \<le> 4096 \<and> snd sz \<le> 4096 \<or> allow"
    and w: "real_of_int \<lceil>60 / real_of_int c\<rceil> \<le> t - t0" and t: "t - t0 \<le> 2 ^ 500"
  shows "\<exists>n. token_refill c t0 t = Inr n \<and> 1 \<le> n \<and>
     n = \<lfloor>nearest_double (nearest_double (t - t0) * nearest_double (real_of_int c / 60))\<rfloor> \<and>
     refill \<lparr>capacity = c, tokens = 0, allow_4k = allow, last_refill = t0\<rparr> t
       = Inr \<lparr>capacity = c, tokens = min c (0 + n), allow_4k = allow, last_refill = t\<rparr> \<and>
     acquire \<lparr>capacity = c, tokens = 0, allow_4k = allow, last_refill = t0\<rparr> t sz
       = (Inr True, \<lparr>capacity = c, tokens = min c (0 + n) - 1, allow_4k = allow, last_refill = t\<rparr>)"
proof -
  from token_refill_after_wait[OF c w t]
  obtain n where n: "token_refill c t0 t = Inr n" and n1: "1 \<le> n" by blast
  have ca: "\<bar>c\<bar> \<le> 2 ^ 500" using c by simp
  have w0: "0 \<le> real_of_int \<lceil>60 / real_of_int c\<rceil>"
  proof -
    have "0 \<le> 60 / real_of_int c" using c by simp
    then have "0 \<le> \<lceil>60 / real_of_int c\<rceil>" by (simp only: zero_le_ceiling)
    then show ?thesis by (simp only: of_int_0_le_iff)
  qed
  have ta: "\<bar>t - t0\<bar> \<le> 2 ^ 500" using w0 w t by linarith
  have x1: "0 \<le> nearest_double (nearest_double (t - t0) * nearest_double (real_of_int c / 60))"
  proof -
    have "0 \<le> nearest_double (t - t0)" using w0 w by (intro nearest_double_nonneg) linarith
    moreover have "0 \<le> nearest_double (real_of_int c / 60)"
      using c by (intro nearest_double_nonneg) simp
    ultimately show ?thesis by (intro nearest_double_nonneg) simp
  qed
  have nf: "n = \<lfloor>nearest_double (nearest_double (t - t0) * nearest_double (real_of_int c / 60))\<rfloor>"
    using token_refill_bounded[OF ca ta] n x1 by (simp add: Let_def)
  have r: "refill \<lparr>capacity = c, tokens = 0, allow_4k = allow, last_refill = t0\<rparr> t
       = Inr \<lparr>capacity = c, tokens = min c (0 + n), allow_4k = allow, last_refill = t\<rparr>"
    using n n1 by (simp add: refill_def)
  have m: "0 < min c (0 + n)" using c n1 by simp
  have a: "acquire \<lparr>capacity = c, tokens = 0, allow_4k = allow, last_refill = t0\<rparr> t sz
       = (Inr True, \<lparr>capacity = c, tokens = min c (0 + n) - 1, allow_4k = allow, last_refill = t\<rparr>)"
    using ok m unfolding acquire_def r by auto
  from n n1 nf r a show ?thesis by blast
qed

text \<open>
  C3 (as amended). Take a bucket of capacity \<open>c\<close> with \<open>0 < c \<le> 2^500\<close> built at the time
  \<open>t0\<close> (it starts full) and requests that the size check lets through. Each of \<open>c\<close>
  successive calls of \<open>acquire\<close> at the time \<open>t0\<close> (no time elapsed) succeeds, and the next
  call at \<open>t0\<close> raises \<open>RateLimitError\<close> and leaves the bucket empty. At any time \<open>t\<close> at
  least \<open>ceil(60 / c)\<close> seconds (and at most \<open>2^500\<close> seconds) after \<open>t0\<close>, the refill
  \<open>tokens = min(capacity, tokens + int(elapsed * (capacity / 60)))\<close> does not raise and
  leaves at least one token, and \<open>acquire\<close> succeeds again. The number of tokens added
  is the one that double arithmetic gives: the elapsed time and the rate
  \<open>capacity / 60\<close> are rounded to doubles, and so is their product, before the fraction
  is dropped.
\<close>

theorem token_bucket_exhaustion:
  "0 < c \<and> c \<le> 2 ^ 500 \<and> (fst sz \<le> 4096 \<and> snd sz \<le> 4096 \<or> allow) \<longrightarrow>
   (\<forall>k < nat c.
      fst (acquire (((\<lambda>l. snd (acquire l t0 sz)) ^^ k) (TokenBucketLimiter c allow t0)) t0 sz)
        = Inr True) \<and>
   acquire (((\<lambda>l. snd (acquire l t0 sz)) ^^ nat c) (TokenBucketLimiter c allow t0)) t0 sz
     = (Inl RateLimitError, \<lparr>capacity = c, tokens = 0, allow_4k = allow, last_refill = t0\<rparr>) \<and>
   (\<forall>t. real_of_int \<lceil>60 / real_of_int c\<rceil> \<le> t - t0 \<and> t - t0 \<le> 2 ^ 500 \<longrightarrow>
      (\<exists>n. token_refill c t0 t = Inr n \<and> 1 \<le> n \<and>
         n = \<lfloor>nearest_double (nearest_double (t - t0) * nearest_double (real_of_int c / 60))\<rfloor> \<and>
         refill \<lparr>capacity = c, tokens = 0, allow_4k = allow, last_refill = t0\<rparr> t
           = Inr \<lparr>capacity = c, tokens = min c (0 + n), allow_4k = allow, last_refill = t\<rparr> \<and>
         acquire \<lparr>capacity = c, tokens = 0, allow_4k = allow, last_refill = t0\<rparr> t sz
           = (Inr True,
              \<lparr>capacity = c, tokens = min c (0 + n) - 1, allow_4k = allow, last_refill = t\<rparr>)))"
proof (intro impI)
  assume h: "0 < c \<and> c \<le> 2 ^ 500 \<and> (fst sz \<le> 4096 \<and> snd sz \<le> 4096 \<or> allow)"
  then have c: "0 < c" and cb: "c \<le> 2 ^ 500"
    and ok: "fst sz \<le> 4096 \<and> snd sz \<le> 4096 \<or> allow" by blast+
  have ca: "\<bar>c\<bar> \<le> 2 ^ 500" using c cb by simp
  have 1: "fst (acquire (((\<lambda>l. snd (acquire l t0 sz)) ^^ k) (TokenBucketLimiter c allow t0)) t0 sz)
        = Inr True" if "k < nat c" for k
  proof -
    from that have "k \<le> nat c" and "c - int k > 0" by auto
    then show ?thesis
      using acquire_iterate[OF ca ok, of k t0]
        acquire_zero_elapsed[of "\<lparr>capacity = c, tokens = c - int k, allow_4k = allow, last_refill = t0\<rparr>" sz]
        ca ok
      by simp
  qed
  have 2: "acquire (((\<lambda>l. snd (acquire l t0 sz)) ^^ nat c) (TokenBucketLimiter c allow t0)) t0 sz
     = (Inl RateLimitError, \<lparr>capacity = c, tokens = 0, allow_4k = allow, last_refill = t0\<rparr>)"
    using acquire_iterate[OF ca ok, of "nat c" t0] c
      acquire_zero_elapsed[of "\<lparr>capacity = c, tokens = 0, allow_4k = allow, last_refill = t0\<rparr>" sz]
      ca ok
    by simp
  have 3: "\<exists>n. token_refill c t0 t = Inr n \<and> 1 \<le> n \<and>
         n = \<lfloor>nearest_double (nearest_double (t - t0) * nearest_double (real_of_int c / 60))\<rfloor> \<and>
         refill \<lparr>capacity = c, tokens = 0, allow_4k = allow, last_refill = t0\<rparr> t
           = Inr \<lparr>capacity = c, tokens = min c (0 + n), allow_4k = allow, last_refill = t\<rparr> \<and>
         acquire \<lparr>capacity = c, tokens = 0, allow_4k = allow, last_refill = t0\<rparr> t sz
           = (Inr True,
              \<lparr>capacity = c, tokens = min c (0 + n) - 1, allow_4k = allow, last_refill = t\<rparr>)"
    if "real_of_int \<lceil>60 / real_of_int c\<rceil> \<le> t - t0 \<and> t - t0 \<le> 2 ^ 500" for t
    using acquire_after_wait[OF c cb ok, of t t0] that by blast
  from 1 2 3 show "(\<forall>k < nat c.
      fst (acquire (((\<lambda>l. snd (acquire l t0 sz)) ^^ k) (TokenBucketLimiter c allow t0)) t0 sz)
        = Inr True) \<and>
   acquire (((\<lambda>l. snd (acquire l t0 sz)) ^^ nat c) (TokenBucketLimiter c allow t0)) t0 sz
     = (Inl RateLimitError, \<lparr>capacity = c, tokens = 0, allow_4k = allow, last_refill = t0\<rparr>) \<and>
   (\<forall>t. real_of_int \<lceil>60 / real_of_int c\<rceil> \<le> t - t0 \<and> t - t0 \<le> 2 ^ 500 \<longrightarrow>
      (\<exists>n. token_refill c t0 t = Inr n \<and> 1 \<le> n \<and>
         n = \<lfloor>nearest_double (nearest_double (t - t0) * nearest_double (real_of_int c / 60))\<rfloor> \<and>
         refill \<lparr>capacity = c, tokens = 0, allow_4k = allow, last_refill = t0\<rparr> t
           = Inr \<lparr>capacity = c, tokens = min c (0 + n), allow_4k = allow, last_refill = t\<rparr> \<and>
         acquire \<lparr>capacity = c, tokens = 0, allow_4k = allow, last_refill = t0\<rparr> t sz
           = (Inr True,
              \<lparr>capacity = c, tokens = min c (0 + n) - 1, allow_4k = allow, last_refill = t\<rparr>)))"
    by blast
qed

theorem token_bucket_exhaustion_witness:
  "fst (acquire (TokenBucketLimiter 2 False 0) 0 (512, 512)) = Inr True \<and>
   fst (acquire (snd (acquire (TokenBucketLimiter 2 False 0) 0 (512, 512))) 0 (512, 512)) = Inr True \<and>
   acquire (((\<lambda>l. snd (acquire l 0 (512, 512))) ^^ 2) (TokenBucketLimiter 2 False 0)) 0 (512, 512)
     = (Inl RateLimitError, \<lparr>capacity = 2, tokens = 0, allow_4k = False, last_refill = 0\<rparr>) \<and>
   token_refill 2 0 30 = Inr 1 \<and>
   acquire \<lparr>capacity = 2, tokens = 0, allow_4k = False, last_refill = 0\<rparr> 30 (512, 512)
     = (Inr True, \<lparr>capacity = 2, tokens = 0, allow_4k = False, last_refill = 30\<rparr>)"
proof -
  note inst = token_bucket_exhaustion[of 2 "(512, 512)" False 0]
  have pre: "(0::int) < 2 \<and> (2::int) \<le> 2 ^ 500 \<and>
     (fst (512::int, 512::int) \<le> 4096 \<and> snd (512::int, 512::int) \<le> 4096 \<or> False)"
    by simp
  have r: "token_refill 2 0 30 = Inr 1"
    by (simp add: eval_bucket eval_double)
  from inst pre have ks: "\<And>k. k < nat 2 \<Longrightarrow>
      fst (acquire (((\<lambda>l. snd (acquire l 0 (512, 512))) ^^ k) (TokenBucketLimiter 2 False 0)) 0 (512, 512))
        = Inr True"
    and ex: "acquire (((\<lambda>l. snd (acquire l 0 (512, 512))) ^^ nat 2) (TokenBucketLimiter 2 False 0)) 0 (512, 512)
     = (Inl RateLimitError, \<lparr>capacity = 2, tokens = 0, allow_4k = False, last_refill = 0\<rparr>)"
    and ws: "\<And>t. real_of_int \<lceil>60 / real_of_int 2\<rceil> \<le> t - 0 \<and> t - 0 \<le> 2 ^ 500 \<Longrightarrow>
      \<exists>n. token_refill 2 0 t = Inr n \<and>
        acquire \<lparr>capacity = 2, tokens = 0, allow_4k = False, last_refill = 0\<rparr> t (512, 512)
           = (Inr True,
              \<lparr>capacity = 2, tokens = min 2 (0 + n) - 1, allow_4k = False, last_refill = t\<rparr>)"
    by blast+
  have k0: "fst (acquire (TokenBucketLimiter 2 False 0) 0 (512, 512)) = Inr True"
    using ks[of 0] by simp
  have k1: "fst (acquire (snd (acquire (TokenBucketLimiter 2 False 0) 0 (512, 512))) 0 (512, 512)) = Inr True"
    using ks[of 1] by simp
  have "real_of_int \<lceil>60 / real_of_int 2\<rceil> \<le> 30 - 0 \<and> (30::real) - 0 \<le> 2 ^ 500" by simp
  from ws[OF this] r
  have w: "acquire \<lparr>capacity = 2, tokens = 0, allow_4k = False, last_refill = 0\<rparr> 30 (512, 512)
     = (Inr True, \<lparr>capacity = 2, tokens = 0, allow_4k = False, last_refill = 30\<rparr>)"
    by simp
  from k0 k1 ex r w show ?thesis by simp
qed

text \<open>
  The claim C3 as first stated gives the refill as
  \<open>min(capacity, tokens + floor(elapsedSeconds * capacity / periodSeconds))\<close>. The code
  computes \<open>int(elapsed * (capacity / 60))\<close> in doubles, and the two differ: an empty
  bucket of capacity 84, 45 seconds after its last refill, holds 62 tokens after the
  refill (\<open>84 / 60\<close> rounds below 1.4, and 45 times it rounds to the double just below 63),
  where the formula gives 63.
\<close>

theorem refill_formula_counterexample:
  "refill \<lparr>capacity = 84, tokens = 0, allow_4k = False, last_refill = 0\<rparr> 45
     = Inr \<lparr>capacity = 84, tokens = 62, allow_4k = False, last_refill = 45\<rparr> \<and>
   spec_refill 84 0 45 60 = 63 \<and>
   real_of_int \<lceil>60 / real_of_int 84\<rceil> \<le> 45 - 0"
proof -
  have r: "token_refill 84 0 45 = Inr 62"
    by (simp add: eval_bucket eval_double)
  show ?thesis by (simp add: refill_def r spec_refill_def)
qed

section \<open>Properties of the polling loop\<close>



lemma poll_loop_pending:
  "int (now_ms s) - int start < 1000 * maxw \<Longrightarrow>
   snd (remote (requests_made s)) = Response 200 res \<Longrightarrow>
   status res = Some ''PENDING'' \<or> status res = Some ''RUNNING'' \<Longrightarrow>
   poll_loop remote maxw start s = poll_loop remote maxw start (sleep 2 (snd (request remote s)))"
  by (subst poll_loop.simps) (auto simp: request_def)






















section \<open>Properties of the ingest pipeline\<close>

lemma face_blur_step_enabled:
  "face_blur_enabled cfg \<Longrightarrow> face_blur_step w cfg img = Inl (NameError ''np'')"
  by (simp add: face_blur_step_def global_name_def module_names_def)

lemma transform_and_save_face_blur:
  "face_blur_enabled cfg \<Longrightarrow>
   \<exists>e. transform_and_save w cfg p src h sc img st = (Inl e, st)"
  by (simp add: transform_and_save_def face_blur_step_enabled split: sum.splits)

lemma transform_and_save_name_error:
  "face_blur_enabled cfg \<Longrightarrow> enhancer_process_image w img = Inr e1 \<Longrightarrow>
   apply_watermark w e1 = Inr e2 \<Longrightarrow>
   transform_and_save w cfg p src h sc img st = (Inl (NameError ''np''), st)"
  by (simp add: transform_and_save_def face_blur_step_enabled)

lemma transform_and_save_face_blur_snd:
  "face_blur_enabled cfg \<Longrightarrow> snd (transform_and_save w cfg p src h sc img st) = st"
  using transform_and_save_face_blur[of cfg w p src h sc img st] by auto

lemma transform_and_save_face_blur_fst:
  "face_blur_enabled cfg \<Longrightarrow> fst (transform_and_save w cfg p src h sc img st) \<noteq> Inr r"
  using transform_and_save_face_blur[of cfg w p src h sc img st] by auto

lemma curate_and_transform_face_blur:
  assumes "face_blur_enabled cfg"
  shows "(\<forall>out. fst (curate_and_transform w cfg p src h img st) \<noteq> Inr (Some out)) \<and>
     db (snd (curate_and_transform w cfg p src h img st)) = db st \<and>
     files (snd (curate_and_transform w cfg p src h img st)) = files st"
  unfolding curate_and_transform_def
  by (auto split: sum.splits prod.splits bool.splits
      simp: Let_def transform_and_save_face_blur_snd[OF assms] transform_and_save_face_blur_fst[OF assms])

lemma process_file_try_face_blur:
  assumes "face_blur_enabled cfg"
  shows "(\<forall>out. fst (process_file_try w cfg p src st) \<noteq> Inr (Some out)) \<and>
     db (snd (process_file_try w cfg p src st)) = db st \<and>
     files (snd (process_file_try w cfg p src st)) = files st"
  unfolding process_file_try_def
  using curate_and_transform_face_blur[OF assms]
  by (auto split: sum.splits option.splits simp: Let_def)

lemma process_file_fst_snd:
  "fst (process_file w cfg p src st) =
     (case fst (process_file_try w cfg p src st) of Inl e \<Rightarrow> Inr None | Inr r \<Rightarrow> Inr r) \<and>
   db (snd (process_file w cfg p src st)) = db (snd (process_file_try w cfg p src st)) \<and>
   files (snd (process_file w cfg p src st)) = files (snd (process_file_try w cfg p src st)) \<and>
   seen_hashes (snd (process_file w cfg p src st)) = seen_hashes (snd (process_file_try w cfg p src st))"
  by (auto simp: process_file_def split: prod.splits sum.splits)

lemma process_file_face_blur:
  assumes "face_blur_enabled cfg"
  shows "fst (process_file w cfg p src st) = Inr None \<and>
     db (snd (process_file w cfg p src st)) = db st \<and>
     files (snd (process_file w cfg p src st)) = files st"
  using process_file_try_face_blur[OF assms, of w p src st]
  by (auto simp: process_file_fst_snd split: sum.splits option.splits)

lemma process_file_try_name_error:
  assumes "face_blur_enabled cfg"
    and "read_file w p = Inr bytes" and "select_fault w = None"
    and "\<not> is_processed (db st) (sha256_hex w bytes)"
    and "image_open w p = Inr img"
    and "compute_perceptual_hash w p = Inr ph"
    and "fst (check_duplicate cfg ph (seen_hashes st)) = Inr False"
    and "score_image w p = Inr sc"
    and "should_keep_image cfg (score_dict sc) = Inr (True, [])"
    and "enhancer_process_image w img = Inr e1"
    and "apply_watermark w e1 = Inr e2"
  shows "fst (process_file_try w cfg p src st) = Inl (NameError ''np'')"
  using assms
  by (auto simp: process_file_try_def compute_sha256_def curate_and_transform_def Let_def
        transform_and_save_name_error split: prod.splits sum.splits bool.splits)

text \<open>
  C10. With face blurring enabled in the configuration, \<open>process_file\<close> returns \<open>None\<close>
  for every input file, world and state: the \<open>try\<close> block never returns an output path,
  and the processed table and the output files stay as they were. For a file that passes
  the already-processed check, the duplicate check and the curation check, and whose
  enhancement and watermark steps succeed, the exception that ends the \<open>try\<close> block is
  the \<open>NameError\<close> for \<open>np\<close>, a name that pipeline.py never binds; the handler turns it
  into the skip.
\<close>

theorem face_blur_enabled_never_succeeds:
  "(face_blur_enabled cfg \<longrightarrow>
      fst (process_file w cfg p src st) = Inr None \<and>
      (\<forall>out. fst (process_file_try w cfg p src st) \<noteq> Inr (Some out)) \<and>
      db (snd (process_file w cfg p src st)) = db st \<and>
      files (snd (process_file w cfg p src st)) = files st) \<and>
   (face_blur_enabled cfg \<and> read_file w p = Inr bytes \<and> select_fault w = None \<and>
    \<not> is_processed (db st) (sha256_hex w bytes) \<and> image_open w p = Inr img \<and>
    compute_perceptual_hash w p = Inr ph \<and>
    fst (check_duplicate cfg ph (seen_hashes st)) = Inr False \<and>
    score_image w p = Inr sc \<and> should_keep_image cfg (score_dict sc) = Inr (True, []) \<and>
    enhancer_process_image w img = Inr enhanced \<and> apply_watermark w enhanced = Inr watermarked
    \<longrightarrow> fst (process_file_try w cfg p src st) = Inl (NameError ''np''))"
  using process_file_face_blur[of cfg w p src st] process_file_try_face_blur[of cfg w p src st]
    process_file_try_name_error[of cfg w p bytes st img ph sc enhanced watermarked src]
  by blast

lemma sample_keep: "should_keep_image default_config
     (score_dict \<lparr>aesthetic = 4 / 5, sharpness = 150, exposure = 3 / 5, blur = 150\<rparr>) = Inr (True, [])"
  by (simp add: should_keep_image_def check_aesthetic_def check_sharpness_def check_exposure_def
        dict_get_def dict_item_def score_dict_def default_config_def)

theorem face_blur_enabled_never_succeeds_witness:
  "face_blur_enabled default_config \<and>
   fst (process_file sample_world default_config ''/nas/a.jpg'' ''nas'' fresh_state) = Inr None \<and>
   db (snd (process_file sample_world default_config ''/nas/a.jpg'' ''nas'' fresh_state)) = Map.empty \<and>
   files (snd (process_file sample_world default_config ''/nas/a.jpg'' ''nas'' fresh_state)) = Map.empty \<and>
   fst (process_file_try sample_world default_config ''/nas/a.jpg'' ''nas'' fresh_state)
     = Inl (NameError ''np'')"
proof -
  have fb: "face_blur_enabled default_config"
    by (simp add: default_config_def)
  have pre: "read_file sample_world ''/nas/a.jpg'' = Inr ''JPEG-A'' \<and> select_fault sample_world = None \<and>
    \<not> is_processed (db fresh_state) (sha256_hex sample_world ''JPEG-A'') \<and>
    image_open sample_world ''/nas/a.jpg'' = Inr [1, 2, 3] \<and>
    compute_perceptual_hash sample_world ''/nas/a.jpg'' = Inr ''8f0e1c3870e0c183'' \<and>
    fst (check_duplicate default_config ''8f0e1c3870e0c183'' (seen_hashes fresh_state)) = Inr False \<and>
    score_image sample_world ''/nas/a.jpg''
      = Inr \<lparr>aesthetic = 4 / 5, sharpness = 150, exposure = 3 / 5, blur = 150\<rparr> \<and>
    enhancer_process_image sample_world [1, 2, 3] = Inr [1, 2, 3] \<and>
    apply_watermark sample_world [1, 2, 3] = Inr [1, 2, 3]"
    by (simp add: sample_world_def fresh_state_def is_processed_def check_duplicate_def)
  note inst = face_blur_enabled_never_succeeds[of default_config sample_world "''/nas/a.jpg''" "''nas''"
      fresh_state "''JPEG-A''" "[1, 2, 3]" "''8f0e1c3870e0c183''"
      "\<lparr>aesthetic = 4 / 5, sharpness = 150, exposure = 3 / 5, blur = 150\<rparr>" "[1, 2, 3]" "[1, 2, 3]"]
  have e: "db fresh_state = Map.empty" "files fresh_state = Map.empty"
    by (simp_all add: fresh_state_def)
  from inst fb pre sample_keep show ?thesis
    unfolding e by blast
qed

lemma save_and_record_printed:
  "set (printed st) \<subseteq> set (printed (snd (save_and_record w cfg p src h sc img st)))"
  by (auto simp: save_and_record_def Let_def split: sum.splits option.splits)

lemma transform_and_save_printed:
  "set (printed st) \<subseteq> set (printed (snd (transform_and_save w cfg p src h sc img st)))"
  using save_and_record_printed
  by (auto simp: transform_and_save_def split: sum.splits)

lemma curate_and_transform_printed:
  "set (printed st) \<subseteq> set (printed (snd (curate_and_transform w cfg p src h img st)))"
proof -
  have t: "\<And>sc seen. set (printed st)
      \<subseteq> set (printed (snd (transform_and_save w cfg p src h sc img (st\<lparr>seen_hashes := seen\<rparr>))))"
    using transform_and_save_printed[of "st\<lparr>seen_hashes := _\<rparr>"] by simp
  show ?thesis
    unfolding curate_and_transform_def
    using t by (auto simp: Let_def split: sum.splits prod.splits bool.splits)
qed

lemma process_file_try_printed:
  "set (printed st) \<subseteq> set (printed (snd (process_file_try w cfg p src st))) \<and>
   Processing p src \<in> set (printed (snd (process_file_try w cfg p src st)))"
proof -
  let ?st = "st\<lparr>printed := printed st @ [Processing p src]\<rparr>"
  have c: "\<And>h img. set (printed ?st) \<subseteq> set (printed (snd (curate_and_transform w cfg p src h img ?st)))"
    by (rule curate_and_transform_printed)
  show ?thesis
    unfolding process_file_try_def Let_def
    using c by (auto split: sum.splits option.splits)
qed

lemma process_file_printed:
  "set (printed st) \<subseteq> set (printed (snd (process_file w cfg p src st))) \<and>
   Processing p src \<in> set (printed (snd (process_file w cfg p src st)))"
  using process_file_try_printed[of st w cfg p src]
  by (auto simp: process_file_def split: prod.splits sum.splits)

lemma process_file_returns: "\<exists>r. fst (process_file w cfg p src st) = Inr r"
  by (auto simp: process_file_def split: prod.splits sum.splits)

lemma process_file_handler:
  "process_file_try w cfg p src st = (Inl e, st') \<Longrightarrow>
   process_file w cfg p src st = (Inr None, st'\<lparr>printed := printed st' @ [ErrorProcessing p e]\<rparr>)"
  by (simp add: process_file_def)

lemma submit_all_length: "length (fst (submit_all w cfg ps src st)) = length ps"
proof (induction ps arbitrary: st)
  case Nil
  then show ?case by simp
next
  case (Cons p ps)
  obtain r1 st1 where pf: "process_file w cfg p src st = (r1, st1)"
    by (cases "process_file w cfg p src st")
  obtain rs st2 where sa: "submit_all w cfg ps src st1 = (rs, st2)"
    by (cases "submit_all w cfg ps src st1")
  from Cons.IH[of st1] sa have "length rs = length ps" by simp
  then show ?case using pf sa by simp
qed

lemma submit_all_returns: "r \<in> set (fst (submit_all w cfg ps src st)) \<Longrightarrow> \<exists>x. r = Inr x"
proof (induction ps arbitrary: st)
  case Nil
  then show ?case by simp
next
  case (Cons p ps)
  obtain r1 st1 where pf: "process_file w cfg p src st = (r1, st1)"
    by (cases "process_file w cfg p src st")
  obtain rs st2 where sa: "submit_all w cfg ps src st1 = (rs, st2)"
    by (cases "submit_all w cfg ps src st1")
  from Cons.prems pf sa have "r = r1 \<or> r \<in> set (fst (submit_all w cfg ps src st1))" by auto
  then show ?case
  proof
    assume "r = r1"
    with process_file_returns[of w cfg p src st] pf show ?thesis by simp
  next
    assume "r \<in> set (fst (submit_all w cfg ps src st1))"
    then show ?thesis by (rule Cons.IH)
  qed
qed

lemma submit_all_printed:
  "set (printed st) \<subseteq> set (printed (snd (submit_all w cfg ps src st))) \<and>
   (\<forall>p\<in>set ps. Processing p src \<in> set (printed (snd (submit_all w cfg ps src st))))"
proof (induction ps arbitrary: st)
  case Nil
  then show ?case by simp
next
  case (Cons p ps)
  obtain r1 st1 where pf: "process_file w cfg p src st = (r1, st1)"
    by (cases "process_file w cfg p src st")
  obtain rs st2 where sa: "submit_all w cfg ps src st1 = (rs, st2)"
    by (cases "submit_all w cfg ps src st1")
  from process_file_printed[of st w cfg p src] pf
  have 1: "set (printed st) \<subseteq> set (printed st1)" "Processing p src \<in> set (printed st1)" by auto
  from Cons.IH[of st1] sa
  have 2: "set (printed st1) \<subseteq> set (printed st2)" "\<forall>q\<in>set ps. Processing q src \<in> set (printed st2)"
    by auto
  from 1 2 show ?case using pf sa by auto
qed

lemma collect_results_no_error:
  "(\<forall>r\<in>set fs. \<exists>x. r = Inr x) \<Longrightarrow> snd (collect_results fs) = []"
  by (induction fs rule: collect_results.induct) (auto split: prod.splits)

lemmas eval_pipeline =
  process_file_def process_file_try_def curate_and_transform_def transform_and_save_def
  save_and_record_def face_blur_step_def compute_sha256_def check_duplicate_def set_add_def
  is_processed_def mark_processed_def sample_world_def fresh_state_def no_face_blur_def
  default_config_def should_keep_image_def check_aesthetic_def check_sharpness_def
  check_exposure_def dict_get_def dict_item_def score_dict_def with_suffix_def path_suffix_def
  path_name_def Let_def

lemma try_missing:
  "process_file_try sample_world no_face_blur ''/nas/missing.jpg'' ''nas'' fresh_state =
    (Inl OSError, fresh_state\<lparr>printed := [Processing ''/nas/missing.jpg'' ''nas'']\<rparr>)"
  by (simp add: eval_pipeline)

lemma try_ok:
  "fst (process_file sample_world no_face_blur ''/nas/a.jpg'' ''nas'' fresh_state) =
    Inr (Some ''/media/curated/nas/a.jpg'')"
  by (simp add: eval_pipeline)

lemma with_suffix_ex: "with_suffix ''/media/curated/nas/a.jpg'' ''.json'' = ''/media/curated/nas/a.json''"
  by (simp add: with_suffix_def path_suffix_def path_name_def Let_def)

lemma try_ok_state:
  "snd (process_file sample_world no_face_blur ''/nas/a.jpg'' ''nas'' fresh_state) =
    \<lparr>db = [''digest-of-JPEG-A'' \<mapsto> \<lparr>source_path = ''/nas/a.jpg'', output_path = ''/media/curated/nas/a.jpg'',
             processed_at = 0, source = ''nas''\<rparr>],
     seen_hashes = [''8f0e1c3870e0c183''],
     files = [''/media/curated/nas/a.jpg'' \<mapsto> ImageFile [1, 2, 3],
              ''/media/curated/nas/a.json'' \<mapsto> SidecarFile
                \<lparr>md_source = ''nas'', md_original_path = ''/nas/a.jpg'',
                 md_output_path = ''/media/curated/nas/a.jpg'', md_processed_at = 0,
                 md_scores = [(''aesthetic'', 4 / 5), (''sharpness'', 150), (''exposure'', 3 / 5), (''blur'', 150)],
                 md_kept = True, md_reasons = [], md_enhancement_backend = ''realesrgan'',
                 md_enhancement_scale = 2, md_faces_blurred = False, md_watermark = None,
                 md_brand = ''vitrinealu''\<rparr>],
     printed = [Processing ''/nas/a.jpg'' ''nas'', Processed ''/nas/a.jpg'' ''/media/curated/nas/a.jpg'']\<rparr>"
  by (simp add: eval_pipeline)

lemma process_batch_completes:
  assumes "0 < (case max_workers of None \<Rightarrow> concurrency cfg
                | Some n \<Rightarrow> if n = 0 then concurrency cfg else n)"
  shows "process_batch w cfg ps src max_workers st =
           (Inr (fst (collect_results (fst (submit_all w cfg ps src st)))),
            snd (submit_all w cfg ps src st))"
proof -
  obtain futures st1 where sa: "submit_all w cfg ps src st = (futures, st1)"
    by (cases "submit_all w cfg ps src st")
  have "\<forall>r\<in>set futures. \<exists>x. r = Inr x"
    using submit_all_returns[of _ w cfg ps src st] sa by auto
  then have "snd (collect_results futures) = []"
    by (rule collect_results_no_error)
  then show ?thesis
    using assms sa by (auto simp: process_batch_def Let_def split: prod.splits option.splits)
qed

text \<open>
  C7. \<open>process_file\<close> always returns: whatever exception \<open>e\<close> leaves the \<open>try\<close> block
  (from hashing, the table lookup, loading, the duplicate check, curation, the transforms,
  saving, the sidecar or marking the file processed), the handler prints it and the call
  returns \<open>None\<close>. A batch over any list of paths, run with a pool of at least one worker,
  returns the list of the outputs: every path of the list is attempted, every future holds
  a return value and none an exception, whichever of the files fail.
\<close>

theorem process_file_never_raises:
  "(\<exists>r. fst (process_file w cfg p src st) = Inr r) \<and>
   (process_file_try w cfg p src st = (Inl e, st') \<longrightarrow>
      process_file w cfg p src st =
        (Inr None, st'\<lparr>printed := printed st' @ [ErrorProcessing p e]\<rparr>)) \<and>
   (0 < (case max_workers of None \<Rightarrow> concurrency cfg
          | Some n \<Rightarrow> if n = 0 then concurrency cfg else n) \<longrightarrow>
      process_batch w cfg ps src max_workers st =
        (Inr (fst (collect_results (fst (submit_all w cfg ps src st)))),
         snd (submit_all w cfg ps src st)) \<and>
      length (fst (submit_all w cfg ps src st)) = length ps \<and>
      (\<forall>r\<in>set (fst (submit_all w cfg ps src st)). \<exists>x. r = Inr x) \<and>
      (\<forall>q\<in>set ps. Processing q src
          \<in> set (printed (snd (process_batch w cfg ps src max_workers st)))))"
proof -
  have 1: "\<exists>r. fst (process_file w cfg p src st) = Inr r"
    by (rule process_file_returns)
  have 2: "process_file w cfg p src st =
        (Inr None, st'\<lparr>printed := printed st' @ [ErrorProcessing p e]\<rparr>)"
    if "process_file_try w cfg p src st = (Inl e, st')"
    using that by (rule process_file_handler)
  have 3: "process_batch w cfg ps src max_workers st =
        (Inr (fst (collect_results (fst (submit_all w cfg ps src st)))),
         snd (submit_all w cfg ps src st)) \<and>
      length (fst (submit_all w cfg ps src st)) = length ps \<and>
      (\<forall>r\<in>set (fst (submit_all w cfg ps src st)). \<exists>x. r = Inr x) \<and>
      (\<forall>q\<in>set ps. Processing q src
          \<in> set (printed (snd (process_batch w cfg ps src max_workers st))))"
    if h: "0 < (case max_workers of None \<Rightarrow> concurrency cfg
          | Some n \<Rightarrow> if n = 0 then concurrency cfg else n)"
  proof -
    note b = process_batch_completes[OF h, of w ps src st]
    have "\<forall>q\<in>set ps. Processing q src \<in> set (printed (snd (submit_all w cfg ps src st)))"
      using submit_all_printed[of st w cfg ps src] by blast
    then have "\<forall>q\<in>set ps. Processing q src
          \<in> set (printed (snd (process_batch w cfg ps src max_workers st)))"
      by (simp add: b)
    moreover have "\<forall>r\<in>set (fst (submit_all w cfg ps src st)). \<exists>x. r = Inr x"
      using submit_all_returns[of _ w cfg ps src st] by blast
    ultimately show ?thesis
      using b submit_all_length[of w cfg ps src st] by blast
  qed
  from 1 2 3 show ?thesis by blast
qed

theorem process_file_never_raises_witness:
  "process_file sample_world no_face_blur ''/nas/missing.jpg'' ''nas'' fresh_state =
     (Inr None, fresh_state\<lparr>printed := [Processing ''/nas/missing.jpg'' ''nas'',
                                         ErrorProcessing ''/nas/missing.jpg'' OSError]\<rparr>) \<and>
   fst (process_batch sample_world no_face_blur [''/nas/missing.jpg'', ''/nas/a.jpg''] ''nas'' None
          fresh_state) = Inr [''/media/curated/nas/a.jpg''] \<and>
   Processing ''/nas/a.jpg'' ''nas''
     \<in> set (printed (snd (process_batch sample_world no_face_blur
                            [''/nas/missing.jpg'', ''/nas/a.jpg''] ''nas'' None fresh_state)))"
proof -
  note inst = process_file_never_raises[of sample_world no_face_blur "''/nas/missing.jpg''" "''nas''"
      fresh_state OSError "fresh_state\<lparr>printed := [Processing ''/nas/missing.jpg'' ''nas'']\<rparr>"
      None "[''/nas/missing.jpg'', ''/nas/a.jpg'']"]
  have w: "0 < (case None of None \<Rightarrow> concurrency no_face_blur
          | Some n \<Rightarrow> if n = 0 then concurrency no_face_blur else n)"
    by (simp add: no_face_blur_def default_config_def)
  have 1: "process_file sample_world no_face_blur ''/nas/missing.jpg'' ''nas'' fresh_state =
     (Inr None, fresh_state\<lparr>printed := [Processing ''/nas/missing.jpg'' ''nas'',
                                         ErrorProcessing ''/nas/missing.jpg'' OSError]\<rparr>)"
    using inst try_missing by simp
  have b: "process_batch sample_world no_face_blur [''/nas/missing.jpg'', ''/nas/a.jpg''] ''nas'' None
          fresh_state =
        (Inr (fst (collect_results (fst (submit_all sample_world no_face_blur
                [''/nas/missing.jpg'', ''/nas/a.jpg''] ''nas'' fresh_state)))),
         snd (submit_all sample_world no_face_blur [''/nas/missing.jpg'', ''/nas/a.jpg''] ''nas''
                fresh_state))"
    and m: "\<forall>q\<in>set [''/nas/missing.jpg'', ''/nas/a.jpg'']. Processing q ''nas''
          \<in> set (printed (snd (process_batch sample_world no_face_blur
                [''/nas/missing.jpg'', ''/nas/a.jpg''] ''nas'' None fresh_state)))"
    using inst w by blast+
  have 2: "fst (process_batch sample_world no_face_blur [''/nas/missing.jpg'', ''/nas/a.jpg''] ''nas'' None
          fresh_state) = Inr [''/media/curated/nas/a.jpg'']"
    unfolding b by (simp add: eval_pipeline)
  from m have 3: "Processing ''/nas/a.jpg'' ''nas''
     \<in> set (printed (snd (process_batch sample_world no_face_blur
                            [''/nas/missing.jpg'', ''/nas/a.jpg''] ''nas'' None fresh_state)))"
    by simp
  from 1 2 3 show ?thesis by blast
qed

lemma is_processed_mark:
  "is_processed (mark_processed tbl h a b c d) h \<and>
   (is_processed tbl h' \<longrightarrow> is_processed (mark_processed tbl h a b c d) h')"
  by (simp add: is_processed_def mark_processed_def)

lemma save_and_record_db:
  "is_processed (db st) h' \<Longrightarrow> is_processed (db (snd (save_and_record w cfg p src h sc img st))) h'"
  by (auto simp: save_and_record_def Let_def is_processed_def mark_processed_def
      split: sum.splits option.splits)

lemma save_and_record_accepts:
  "fst (save_and_record w cfg p src h sc img st) = Inr (Some out) \<Longrightarrow>
   is_processed (db (snd (save_and_record w cfg p src h sc img st))) h"
  by (auto simp: save_and_record_def Let_def is_processed_def mark_processed_def
      split: sum.splits option.splits)

lemma transform_and_save_db:
  "is_processed (db st) h' \<Longrightarrow> is_processed (db (snd (transform_and_save w cfg p src h sc img st))) h'"
  using save_and_record_db
  by (auto simp: transform_and_save_def split: sum.splits)

lemma transform_and_save_accepts:
  "fst (transform_and_save w cfg p src h sc img st) = Inr (Some out) \<Longrightarrow>
   is_processed (db (snd (transform_and_save w cfg p src h sc img st))) h"
  using save_and_record_accepts
  by (auto simp: transform_and_save_def split: sum.splits)

lemma curate_and_transform_db:
  assumes "is_processed (db st) h'"
  shows "is_processed (db (snd (curate_and_transform w cfg p src h img st))) h'"
proof -
  have t: "\<And>sc seen. is_processed
      (db (snd (transform_and_save w cfg p src h sc img (st\<lparr>seen_hashes := seen\<rparr>)))) h'"
    using assms by (intro transform_and_save_db) simp
  show ?thesis
    unfolding curate_and_transform_def
    using t assms by (auto simp: Let_def split: sum.splits prod.splits bool.splits)
qed

lemma curate_and_transform_accepts:
  assumes "fst (curate_and_transform w cfg p src h img st) = Inr (Some out)"
  shows "is_processed (db (snd (curate_and_transform w cfg p src h img st))) h"
  using assms transform_and_save_accepts[of w cfg p src h _ img "st\<lparr>seen_hashes := _\<rparr>" out]
  unfolding curate_and_transform_def
  by (auto simp: Let_def split: sum.splits prod.splits bool.splits if_splits)

lemma process_file_try_db:
  assumes "is_processed (db st) h'"
  shows "is_processed (db (snd (process_file_try w cfg p src st))) h'"
proof -
  let ?st = "st\<lparr>printed := printed st @ [Processing p src]\<rparr>"
  have c: "\<And>h img. is_processed (db (snd (curate_and_transform w cfg p src h img ?st))) h'"
    using assms by (intro curate_and_transform_db) simp
  show ?thesis
    unfolding process_file_try_def Let_def
    using c assms by (auto split: sum.splits option.splits)
qed

lemma process_file_db:
  "is_processed (db st) h' \<Longrightarrow> is_processed (db (snd (process_file w cfg p src st))) h'"
  using process_file_try_db[of st h' w cfg p src]
  by (simp add: process_file_fst_snd)

lemma submit_all_db:
  "is_processed (db st) h' \<Longrightarrow> is_processed (db (snd (submit_all w cfg ps src st))) h'"
proof (induction ps arbitrary: st)
  case Nil
  then show ?case by simp
next
  case (Cons p ps)
  obtain r1 st1 where pf: "process_file w cfg p src st = (r1, st1)"
    by (cases "process_file w cfg p src st")
  obtain rs st2 where sa: "submit_all w cfg ps src st1 = (rs, st2)"
    by (cases "submit_all w cfg ps src st1")
  from process_file_db[OF Cons.prems, of w cfg p src] pf have "is_processed (db st1) h'" by simp
  from Cons.IH[OF this] sa show ?case using pf by simp
qed

lemma process_file_accepts:
  assumes "fst (process_file w cfg p src st) = Inr (Some out)"
  shows "\<exists>bytes. read_file w p = Inr bytes \<and>
           is_processed (db (snd (process_file w cfg p src st))) (sha256_hex w bytes)"
proof -
  from assms have t: "fst (process_file_try w cfg p src st) = Inr (Some out)"
    by (auto simp: process_file_fst_snd split: sum.splits)
  let ?st = "st\<lparr>printed := printed st @ [Processing p src]\<rparr>"
  obtain bytes where rf: "read_file w p = Inr bytes"
    using t by (auto simp: process_file_try_def compute_sha256_def Let_def split: sum.splits)
  have "is_processed (db (snd (process_file_try w cfg p src st))) (sha256_hex w bytes)"
    using t rf curate_and_transform_accepts[of w cfg p src "sha256_hex w bytes" _ ?st out]
    by (auto simp: process_file_try_def compute_sha256_def Let_def
        split: sum.splits option.splits if_splits)
  then show ?thesis using rf by (auto simp: process_file_fst_snd)
qed

lemma process_file_skips_processed:
  assumes "read_file w p = Inr bytes" and "is_processed (db st) (sha256_hex w bytes)"
  shows "fst (process_file w cfg p src st) = Inr None \<and>
         db (snd (process_file w cfg p src st)) = db st \<and>
         files (snd (process_file w cfg p src st)) = files st \<and>
         seen_hashes (snd (process_file w cfg p src st)) = seen_hashes st"
  using assms
  by (auto simp: process_file_def process_file_try_def compute_sha256_def Let_def
      split: sum.splits option.splits)

text \<open>
  C1. When \<open>process_file\<close> has accepted a file (it returned an output path), a later call
  on a file with the same bytes, under the same digest function, returns \<open>None\<close> and
  leaves the processed table and the output files as they are; this holds directly after
  the first call and after any batch of other files run in between. The table lookup on
  the content hash decides before any other collaborator is called: when the hash is in
  the table the call only prints its two lines. A hash that \<open>mark_processed\<close> has stored
  is reported by \<open>is_processed\<close>, and neither \<open>mark_processed\<close> nor \<open>process_file\<close> ever
  makes a processed hash unprocessed.
\<close>

theorem process_file_idempotent:
  "(fst (process_file w cfg p src st) = Inr (Some out) \<and>
    read_file w2 p2 = read_file w p \<and> sha256_hex w2 = sha256_hex w \<longrightarrow>
      fst (process_file w2 cfg2 p2 src2
             (snd (submit_all w3 cfg3 ps src3 (snd (process_file w cfg p src st))))) = Inr None \<and>
      db (snd (process_file w2 cfg2 p2 src2
             (snd (submit_all w3 cfg3 ps src3 (snd (process_file w cfg p src st))))))
        = db (snd (submit_all w3 cfg3 ps src3 (snd (process_file w cfg p src st)))) \<and>
      files (snd (process_file w2 cfg2 p2 src2
             (snd (submit_all w3 cfg3 ps src3 (snd (process_file w cfg p src st))))))
        = files (snd (submit_all w3 cfg3 ps src3 (snd (process_file w cfg p src st))))) \<and>
   (read_file w p = Inr bytes \<and> is_processed (db st) (sha256_hex w bytes) \<and> select_fault w = None
      \<longrightarrow> process_file w cfg p src st =
            (Inr None, st\<lparr>printed := printed st @ [Processing p src, SkippingProcessed p]\<rparr>)) \<and>
   is_processed (mark_processed tbl h src_path out_path stamp source_name) h \<and>
   (is_processed tbl h' \<longrightarrow> is_processed (mark_processed tbl h src_path out_path stamp source_name) h') \<and>
   (is_processed (db st) h' \<longrightarrow> is_processed (db (snd (process_file w cfg p src st))) h')"
proof -
  have 1: "fst (process_file w2 cfg2 p2 src2
             (snd (submit_all w3 cfg3 ps src3 (snd (process_file w cfg p src st))))) = Inr None \<and>
      db (snd (process_file w2 cfg2 p2 src2
             (snd (submit_all w3 cfg3 ps src3 (snd (process_file w cfg p src st))))))
        = db (snd (submit_all w3 cfg3 ps src3 (snd (process_file w cfg p src st)))) \<and>
      files (snd (process_file w2 cfg2 p2 src2
             (snd (submit_all w3 cfg3 ps src3 (snd (process_file w cfg p src st))))))
        = files (snd (submit_all w3 cfg3 ps src3 (snd (process_file w cfg p src st))))"
    if h: "fst (process_file w cfg p src st) = Inr (Some out) \<and>
    read_file w2 p2 = read_file w p \<and> sha256_hex w2 = sha256_hex w"
  proof -
    from h process_file_accepts[of w cfg p src st out]
    obtain bytes where rf: "read_file w p = Inr bytes"
      and ip: "is_processed (db (snd (process_file w cfg p src st))) (sha256_hex w bytes)"
      by blast
    from ip have "is_processed (db (snd (submit_all w3 cfg3 ps src3 (snd (process_file w cfg p src st)))))
        (sha256_hex w bytes)"
      by (rule submit_all_db)
    moreover from h rf have "read_file w2 p2 = Inr bytes" "sha256_hex w2 bytes = sha256_hex w bytes"
      by simp_all
    ultimately show ?thesis
      using process_file_skips_processed[of w2 p2 bytes
          "snd (submit_all w3 cfg3 ps src3 (snd (process_file w cfg p src st)))" cfg2 src2]
      by simp
  qed
  have 2: "process_file w cfg p src st =
            (Inr None, st\<lparr>printed := printed st @ [Processing p src, SkippingProcessed p]\<rparr>)"
    if "read_file w p = Inr bytes \<and> is_processed (db st) (sha256_hex w bytes) \<and> select_fault w = None"
    using that
    by (simp add: process_file_def process_file_try_def compute_sha256_def Let_def)
  have 3: "is_processed (db (snd (process_file w cfg p src st))) h'" if "is_processed (db st) h'"
    using that by (rule process_file_db)
  from 1 2 3 is_processed_mark[of tbl h src_path out_path stamp source_name h'] show ?thesis
    by blast
qed

theorem process_file_idempotent_witness:
  "fst (process_file sample_world no_face_blur ''/nas/a.jpg'' ''nas'' fresh_state)
     = Inr (Some ''/media/curated/nas/a.jpg'') \<and>
   read_file sample_world ''/nas/a-copy.jpg'' = read_file sample_world ''/nas/a.jpg'' \<and>
   fst (process_file sample_world no_face_blur ''/nas/a-copy.jpg'' ''drive''
          (snd (submit_all sample_world no_face_blur [''/nas/b.jpg''] ''nas''
             (snd (process_file sample_world no_face_blur ''/nas/a.jpg'' ''nas'' fresh_state)))))
     = Inr None \<and>
   fst (process_file sample_world no_face_blur ''/nas/a.jpg'' ''nas''
          (snd (process_file sample_world no_face_blur ''/nas/a.jpg'' ''nas'' fresh_state)))
     = Inr None \<and>
   files (snd (process_file sample_world no_face_blur ''/nas/a.jpg'' ''nas''
          (snd (process_file sample_world no_face_blur ''/nas/a.jpg'' ''nas'' fresh_state))))
     = files (snd (process_file sample_world no_face_blur ''/nas/a.jpg'' ''nas'' fresh_state))"
proof -
  have r: "read_file sample_world ''/nas/a-copy.jpg'' = read_file sample_world ''/nas/a.jpg''"
    by (simp add: sample_world_def)
  note i1 = process_file_idempotent[of sample_world no_face_blur "''/nas/a.jpg''" "''nas''" fresh_state
      "''/media/curated/nas/a.jpg''" sample_world "''/nas/a-copy.jpg''" no_face_blur "''drive''"
      sample_world no_face_blur "[''/nas/b.jpg'']" "''nas''"]
  note i2 = process_file_idempotent[of sample_world no_face_blur "''/nas/a.jpg''" "''nas''" fresh_state
      "''/media/curated/nas/a.jpg''" sample_world "''/nas/a.jpg''" no_face_blur "''nas''"
      sample_world no_face_blur "[]" "''nas''"]
  from i1 try_ok r have 1: "fst (process_file sample_world no_face_blur ''/nas/a-copy.jpg'' ''drive''
          (snd (submit_all sample_world no_face_blur [''/nas/b.jpg''] ''nas''
             (snd (process_file sample_world no_face_blur ''/nas/a.jpg'' ''nas'' fresh_state)))))
     = Inr None"
    by blast
  from i2 try_ok have 2: "fst (process_file sample_world no_face_blur ''/nas/a.jpg'' ''nas''
          (snd (submit_all sample_world no_face_blur [] ''nas''
             (snd (process_file sample_world no_face_blur ''/nas/a.jpg'' ''nas'' fresh_state)))))
     = Inr None \<and>
   files (snd (process_file sample_world no_face_blur ''/nas/a.jpg'' ''nas''
          (snd (submit_all sample_world no_face_blur [] ''nas''
             (snd (process_file sample_world no_face_blur ''/nas/a.jpg'' ''nas'' fresh_state))))))
     = files (snd (submit_all sample_world no_face_blur [] ''nas''
             (snd (process_file sample_world no_face_blur ''/nas/a.jpg'' ''nas'' fresh_state))))"
    by blast
  from try_ok r 1 2 show ?thesis
    by (simp only: submit_all.simps snd_conv simp_thms)
qed

section \<open>Properties of the background service\<close>









text \<open>
  The endpoint never reaches the generation. \<open>load_image\<close> is given the uploaded bytes,
  not a path, and raises \<open>TypeError\<close>; had it returned, its result would be a pair, which
  has no \<open>shape\<close>. So a request that has passed the token bucket and the validation of
  the form is answered with the status 500, and no request is answered with a
  \<open>ProcessingResponse\<close>. (main.py also imports from io.py two names that io.py does not
  define, so that importing the module raises \<open>ImportError\<close>; the endpoint is taken here
  as it stands, in a module whose imports have been resolved.)
\<close>

lemma main_imports_fail:
  "import_from_io [''load_image'', ''save_image'', ''generate_output_path''] = Some ImportError"
  by (simp add: io_names_def)

lemma load_image_bytes: "load_image f (PyBytes b) = Inl TypeError"
  by (simp add: load_image_def)

lemma load_image_shape: "load_image f x = Inr obj \<Longrightarrow> shape obj = Inl AttributeError"
  by (auto simp: load_image_def shape_def split: py_object.splits sum.splits)

lemma replace_try_result:
  "replace_try env w form st =
     (if steps form < 1 \<or> steps form > 100 \<or> guidance_scale form < 1 \<or> guidance_scale form > 20
      then (Inl (HTTPException 400), st) else (Inl TypeError, st))"
  by (simp add: replace_try_def load_image_bytes)

lemma replace_background_result:
  "consume_token env (time_now w) st = (Inr True, st1) \<Longrightarrow>
   replace_background env w form st =
     (if steps form < 1 \<or> steps form > 100 \<or> guidance_scale form < 1 \<or> guidance_scale form > 20
      then (Inl (HTTPException 400), st1) else (Inl (HTTPException 500), st1))"
  by (simp add: replace_background_def replace_try_result)

lemma replace_background_never_responds:
  "fst (replace_background env w form st) \<noteq> Inr response"
  by (auto simp: replace_background_def replace_try_result
      split: prod.splits sum.splits bool.splits error.splits)

lemmas eval_service =
  replace_background_def replace_try_def load_image_def shape_def consume_token_def
  token_refill_def float_sub_def float_mul_def int_true_div_def py_int_def round_double_def
  sample_form_def sample_request_def runway_with_fallback_def sdxl_only_def service_start_def

text \<open>
  C4, where the code departs from it. The engine is Runway and the fallback is enabled;
  the form is valid and a token is available. The request is answered with the status
  500 (the \<open>TypeError\<close> of \<open>load_image\<close>, under the handler \<open>except Exception\<close>) before an
  engine is chosen: no remote attempt is made, the local generator is neither built nor
  called, and there is no response that could report the engine \<open>local-fallback\<close>. The
  token is spent.
\<close>

theorem fallback_request_answered_500:
  "replace_background runway_with_fallback sample_request sample_form service_start =
     (Inl (HTTPException 500),
      \<lparr>bucket_tokens = 9, bucket_last = 0, sdxl = None, engine_calls = []\<rparr>)"
  by (simp add: eval_service eval_double)

text \<open>
  The block that chooses the engine, taken alone (it stands behind the call of
  \<open>load_image\<close>, for any size of the input): the import of \<open>generate_background_remote\<close>
  fails, so the remote attempt always raises; without the fallback the block raises the
  status 500; with it the local generator is called after the remote attempt; and no
  remote call ever follows a local call. The only response that the endpoint builds
  names no engine.
\<close>

lemma import_remote_fails: "import_from_runway_adapter ''generate_background_remote'' = Some ImportError"
  by (simp add: import_from_runway_adapter_def runway_adapter_names_def)

lemma remote_failure_without_fallback:
  "configured_engine env = RUNWAY \<Longrightarrow> \<not> fallback_local env \<Longrightarrow>
   fst (generate_new_background env w form max_dim st) = Inl (HTTPException 500)"
  by (auto simp: generate_new_background_def runway_block_def import_remote_fails)

lemma remote_failure_with_fallback_calls_local:
  "configured_engine env = RUNWAY \<Longrightarrow> fallback_local env \<Longrightarrow>
   \<not> (max_dim > 4096 \<and> \<not> env_allow_4k env) \<Longrightarrow>
   engine_calls (snd (generate_new_background env w form max_dim st))
     = engine_calls st @ [RemoteCall, LocalCall]"
  by (auto simp: generate_new_background_def runway_block_def sdxl_block_def import_remote_fails
        generate_background_sdxl_def split: sum.splits prod.splits)

lemma generate_background_sdxl_calls:
  "engine_calls (snd (generate_background_sdxl w key st)) = engine_calls st"
  by (auto simp: generate_background_sdxl_def split: sum.splits prod.splits)

lemma generate_background_sdxl_calls_pair:
  "generate_background_sdxl w key st = (r, st') \<Longrightarrow> engine_calls st' = engine_calls st"
  using generate_background_sdxl_calls[of w key st] by simp

lemma engine_calls_one_way:
  "engine_calls (snd (generate_new_background env w form max_dim st)) = engine_calls st @ cs \<Longrightarrow>
   cs \<in> {[], [RemoteCall], [LocalCall], [RemoteCall, LocalCall]}"
  by (auto simp: generate_new_background_def runway_block_def sdxl_block_def import_remote_fails
      split: if_splits prod.splits sum.splits option.splits bg_engine.splits
      dest: generate_background_sdxl_calls_pair)

lemma sdxl_engine_never_calls_remote:
  "configured_engine env = SDXL \<Longrightarrow>
   engine_calls (snd (generate_new_background env w form max_dim st)) = engine_calls st \<or>
   engine_calls (snd (generate_new_background env w form max_dim st)) = engine_calls st @ [LocalCall]"
  by (auto simp: generate_new_background_def sdxl_block_def
      split: if_splits prod.splits sum.splits option.splits
      dest: generate_background_sdxl_calls_pair)

lemma completed_response_names_no_engine:
  "engine_used (completed_response out_path) = None \<and> meta (completed_response out_path) = []"
  by (simp add: completed_response_def)

text \<open>
  The endpoint does not go through \<open>acquire\<close>: it takes a token from its own bucket
  before it looks at the request, so every request it rejects afterwards has cost a token.
\<close>

lemma endpoint_takes_token_first:
  "replace_background sdxl_only sample_request (sample_form\<lparr>steps := 0\<rparr>) service_start =
     (Inl (HTTPException 400), service_start\<lparr>bucket_tokens := 9\<rparr>)"
  by (simp add: eval_service eval_double)

end
